theory Spec2Isabelle
  imports Main "HOL-Library.AList" "HOL-Library.Multiset" "HOL-Library.Sublist"
    "HOL-Library.Product_Lexorder"
begin

section \<open>Strings of the platform\<close>

text \<open>
  A JavaScript string is a sequence of UTF-16 code units. It is modelled as a \<open>string\<close>
  whose characters are the code units below 256 (ASCII and Latin-1); on that alphabet
  \<open>trim\<close>, \<open>toLowerCase\<close> and \<open>parseInt\<close> are modelled exactly.
\<close>

definition dquote :: char where
  "dquote = CHR 0x22"

definition comma :: char where
  "comma = CHR 0x2C"

definition semicolon :: char where
  "semicolon = CHR 0x3B"

definition CR :: char where
  "CR = CHR 0x0D"

definition LF :: char where
  "LF = CHR 0x0A"

text \<open>White space and line terminators, as \<open>String.prototype.trim\<close> and \<open>parseInt\<close> skip them.\<close>

definition is_ws :: "char \<Rightarrow> bool" where
  "is_ws c = (c \<in> set [CHR 0x09, CHR 0x0A, CHR 0x0B, CHR 0x0C, CHR 0x0D, CHR 0x20, CHR 0xA0])"

definition trim :: "string \<Rightarrow> string" where
  "trim s = rev (dropWhile is_ws (rev (dropWhile is_ws s)))"

definition lower_char :: "char \<Rightarrow> char" where
  "lower_char c =
     (let n = (of_char c :: int)
      in if (65 \<le> n \<and> n \<le> 90) \<or> (192 \<le> n \<and> n \<le> 214) \<or> (216 \<le> n \<and> n \<le> 222)
         then char_of (n + 32) else c)"

definition toLowerCase :: "string \<Rightarrow> string" where
  "toLowerCase s = map lower_char s"

text \<open>\<open>s.includes(q)\<close>: \<open>q\<close> occurs in \<open>s\<close> as a contiguous substring.\<close>

fun starts_with :: "string \<Rightarrow> string \<Rightarrow> bool" where
  "starts_with s [] = True"
| "starts_with [] (q # qs) = False"
| "starts_with (c # cs) (q # qs) = (c = q \<and> starts_with cs qs)"

fun str_includes :: "string \<Rightarrow> string \<Rightarrow> bool" where
  "str_includes [] q = (q = [])"
| "str_includes (c # cs) q = (starts_with (c # cs) q \<or> str_includes cs q)"

text \<open>\<open>s.endsWith(q)\<close>.\<close>

definition ends_with :: "string \<Rightarrow> string \<Rightarrow> bool" where
  "ends_with s q = starts_with (rev s) (rev q)"

subsection \<open>Splitting\<close>

definition push_char :: "char \<Rightarrow> string list \<Rightarrow> string list" where
  "push_char c fs = (case fs of [] \<Rightarrow> [[c]] | f # r \<Rightarrow> (c # f) # r)"

text \<open>\<open>s.split(d)\<close> for a separator of one character.\<close>

fun split_char :: "char \<Rightarrow> string \<Rightarrow> string list" where
  "split_char d [] = [[]]"
| "split_char d (c # cs) =
     (if c = d then [] # split_char d cs else push_char c (split_char d cs))"

text \<open>\<open>content.split(/\r?\n/)\<close>.\<close>

fun split_lines :: "string \<Rightarrow> string list" where
  "split_lines [] = [[]]"
| "split_lines [c] = (if c = LF then [[], []] else [[c]])"
| "split_lines (c # e # cs) =
     (if c = CR \<and> e = LF then [] # split_lines cs
      else if c = LF then [] # split_lines (e # cs)
      else push_char c (split_lines (e # cs)))"

text \<open>
  The lookahead of the splitting expression,
  \<^verbatim>\<open>(?=(?:(?:[^"]*"){2})*[^"]*$)\<close>: the rest of the line is consumed two double quotes
  at a time, and what is left must hold no double quote.
\<close>

fun skip_to_quote :: "string \<Rightarrow> string option" where
  "skip_to_quote [] = None"
| "skip_to_quote (c # cs) = (if c = dquote then Some cs else skip_to_quote cs)"

lemma skip_to_quote_shorter: "skip_to_quote s = Some r \<Longrightarrow> length r < length s"
  by (induction s) (auto split: if_splits)

function lookahead :: "string \<Rightarrow> bool" where
  "lookahead s =
     (case skip_to_quote s of
        None \<Rightarrow> True
      | Some r \<Rightarrow> (case skip_to_quote r of None \<Rightarrow> False | Some r' \<Rightarrow> lookahead r'))"
  by pat_completeness auto
termination
proof (relation "measure length")
  show "wf (measure length)" by simp
next
  fix s r r'
  assume "skip_to_quote s = Some r" "skip_to_quote r = Some r'"
  then have "length r' < length s"
    using skip_to_quote_shorter [of s r] skip_to_quote_shorter [of r r'] by simp
  then show "(r', s) \<in> measure length" by simp
qed

declare lookahead.simps [simp del]

text \<open>\<open>line.split(regex)\<close> with \<open>regex\<close> the delimiter followed by the lookahead.\<close>

fun split_regex :: "char \<Rightarrow> string \<Rightarrow> string list" where
  "split_regex d [] = [[]]"
| "split_regex d (c # cs) =
     (if c = d \<and> lookahead cs then [] # split_regex d cs
      else push_char c (split_regex d cs))"

text \<open>\<open>s.replace(/^"|"$/g, '')\<close>: a double quote at the start is removed, then one at the end.\<close>

definition strip_quotes :: "string \<Rightarrow> string" where
  "strip_quotes s =
     (let s1 = (case s of [] \<Rightarrow> [] | c # cs \<Rightarrow> if c = dquote then cs else s)
      in if s1 \<noteq> [] \<and> last s1 = dquote then butlast s1 else s1)"

section \<open>Numbers of the platform\<close>

text \<open>
  A number of the platform is a double. The numbers met here are integers or infinite:
  \<open>Num n\<close> is the double whose value is the integer \<open>n\<close>, and \<open>NaN\<close> is the \<open>None\<close> of an
  optional number. A negative zero is not told from zero (no test made here tells
  them apart).
\<close>

datatype jsnum = Num int | PosInf | NegInf

fun num_less :: "jsnum \<Rightarrow> jsnum \<Rightarrow> bool" where
  "num_less (Num a) (Num b) = (a < b)"
| "num_less (Num a) PosInf = True"
| "num_less (Num a) NegInf = False"
| "num_less PosInf b = False"
| "num_less NegInf (Num b) = True"
| "num_less NegInf PosInf = True"
| "num_less NegInf NegInf = False"

text \<open>
  The double of an integer. An integer of magnitude below \<open>2^53\<close> is a double. A larger
  one is rounded to 53 significant bits, to the nearest and at a tie to the even one:
  \<open>scale\<close> finds the weight \<open>w\<close> of the last bit kept and the bits kept, \<open>n div w\<close>. A
  magnitude that rounds to \<open>2^1024\<close> or more is infinite.
\<close>

function scale :: "int \<Rightarrow> int \<Rightarrow> int \<times> int" where
  "scale n w = (if n div w < 9007199254740992 then (n div w, w) else scale n (2 * w))"
  by pat_completeness auto
termination
proof (relation "measure (\<lambda>(n, w). nat (n div w))")
  show "wf (measure (\<lambda>(n, w). nat (n div w)))" by simp
next
  fix n w :: int
  assume a: "\<not> n div w < 9007199254740992"
  have "n div (2 * w) = n div w div 2"
    by (simp add: mult.commute [of 2 w] zdiv_zmult2_eq)
  with a show "((n, 2 * w), (n, w)) \<in> measure (\<lambda>(n, w). nat (n div w))"
    by simp
qed

declare scale.simps [simp del]

definition round_even :: "int \<Rightarrow> int" where
  "round_even m =
     (let qw = scale m 1; q = fst qw; w = snd qw; r = m mod w
      in (if 2 * r > w \<or> (2 * r = w \<and> odd q) then q + 1 else q) * w)"

definition to_number :: "int \<Rightarrow> jsnum" where
  "to_number n =
     (let m = \<bar>n\<bar>;
          v = (if m < 9007199254740992 then m else round_even m)
      in if v \<ge> 2 ^ 1024 then (if n < 0 then NegInf else PosInf)
         else Num (if n < 0 then - v else v))"

text \<open>
  \<open>parseInt(s, 10)\<close>: leading white space is skipped, one sign is read, then the longest
  run of decimal digits; \<open>parse_integer\<close> is the integer that they write, and no digit
  gives \<open>NaN\<close>. The result is the double of that integer (the platform's leave to
  drop the digits after the twentieth is not taken). An argument that is \<open>undefined\<close>
  is first turned into the string \<open>undefined\<close>.
\<close>

definition is_digit :: "char \<Rightarrow> bool" where
  "is_digit c = (48 \<le> (of_char c :: int) \<and> (of_char c :: int) \<le> 57)"

definition digit_value :: "char \<Rightarrow> int" where
  "digit_value c = of_char c - 48"

definition digits_value :: "string \<Rightarrow> int" where
  "digits_value ds = foldl (\<lambda>n c. 10 * n + digit_value c) 0 ds"

definition to_str :: "string option \<Rightarrow> string" where
  "to_str v = (case v of None \<Rightarrow> ''undefined'' | Some s \<Rightarrow> s)"

definition parse_integer :: "string \<Rightarrow> int option" where
  "parse_integer s =
     (let t = dropWhile is_ws s;
          neg = (t \<noteq> [] \<and> hd t = CHR ''-'');
          r = (if t \<noteq> [] \<and> (hd t = CHR ''-'' \<or> hd t = CHR ''+'') then tl t else t);
          ds = takeWhile is_digit r
      in if ds = [] then None
         else Some (if neg then - digits_value ds else digits_value ds))"

definition parseInt :: "string \<Rightarrow> jsnum option" where
  "parseInt s = map_option to_number (parse_integer s)"

text \<open>
  \<open>String(n)\<close> for a number, as a property key is made from it. The digits are written
  for an integer of magnitude below \<open>10^21\<close>; beyond, the platform writes an exponent,
  which no call made here reaches.
\<close>

function digits_of :: "int \<Rightarrow> string" where
  "digits_of n =
     (if n < 10 then [char_of (48 + n)]
      else digits_of (n div 10) @ [char_of (48 + n mod 10)])"
  by pat_completeness auto
termination
  by (relation "measure nat") auto

declare digits_of.simps [simp del]

definition number_to_string :: "int \<Rightarrow> string" where
  "number_to_string i = (if i < 0 then CHR ''-'' # digits_of (- i) else digits_of i)"

definition number_key :: "jsnum \<Rightarrow> string" where
  "number_key v =
     (case v of Num i \<Rightarrow> number_to_string i | PosInf \<Rightarrow> ''Infinity'' | NegInf \<Rightarrow> ''-Infinity'')"

text \<open>
  A difference of two numbers: \<open>NaN\<close> when either is, and for two infinities of one
  sign; the difference of two integers is rounded as every double is.
\<close>

fun num_minus :: "jsnum \<Rightarrow> jsnum \<Rightarrow> jsnum option" where
  "num_minus (Num a) (Num b) = Some (to_number (a - b))"
| "num_minus (Num a) PosInf = Some NegInf"
| "num_minus (Num a) NegInf = Some PosInf"
| "num_minus PosInf PosInf = None"
| "num_minus PosInf b = Some PosInf"
| "num_minus NegInf NegInf = None"
| "num_minus NegInf b = Some NegInf"

definition num_sub :: "jsnum option \<Rightarrow> jsnum option \<Rightarrow> jsnum option" where
  "num_sub a b =
     (case a of None \<Rightarrow> None | Some x \<Rightarrow> (case b of None \<Rightarrow> None | Some y \<Rightarrow> num_minus x y))"

section \<open>Objects and arrays of the platform\<close>

text \<open>
  The names that every plain object inherits from the object prototype. A read of such
  a name on an object without an own property of that name gives the inherited
  member, which is no string; \<open>k in obj\<close> holds for each of them; and an assignment
  \<open>obj[k] = v\<close> of a string creates an own property for every name but \<open>__proto__\<close>,
  whose inherited setter ignores a string.
\<close>

definition object_prototype_names :: "string list" where
  "object_prototype_names =
     [''constructor'', ''__defineGetter__'', ''__defineSetter__'', ''hasOwnProperty'',
      ''__lookupGetter__'', ''__lookupSetter__'', ''isPrototypeOf'', ''propertyIsEnumerable'',
      ''toString'', ''valueOf'', ''__proto__'', ''toLocaleString'']"

text \<open>
  The own keys of an object are listed with the array indices first, in ascending order,
  and then the other keys in insertion order. An array index is the canonical decimal
  string of an integer below \<open>2^32 - 1\<close>.
\<close>

definition array_index :: "string \<Rightarrow> int option" where
  "array_index k =
     (case parse_integer k of
        None \<Rightarrow> None
      | Some i \<Rightarrow> if 0 \<le> i \<and> i < 4294967295 \<and> number_to_string i = k then Some i else None)"

definition index_or_zero :: "string \<Rightarrow> int" where
  "index_or_zero k = (case array_index k of None \<Rightarrow> 0 | Some n \<Rightarrow> n)"

definition object_entries :: "(string \<times> 'v) list \<Rightarrow> (string \<times> 'v) list" where
  "object_entries obj =
     sort_key (\<lambda>kv. index_or_zero (fst kv)) (filter (\<lambda>kv. array_index (fst kv) \<noteq> None) obj)
     @ filter (\<lambda>kv. array_index (fst kv) = None) obj"

text \<open>
  \<open>Array.prototype.sort\<close> with a comparator. The sort is stable, and a comparator result
  \<open>NaN\<close> counts as \<open>+0\<close>. For a consistent comparator the result is the one stable
  sorted order, which this insertion sort computes. For a comparator that is not
  consistent on the elements (as when its result is \<open>NaN\<close> for some pairs only) the
  order is the engine's own: the model then gives one permutation of the elements, and
  nothing below uses more of it than that it is a permutation. Which pairs are
  compared is the engine's own too. A comparator may throw, which ends the sort.
\<close>

datatype js_exception = TypeError

definition comes_after :: "jsnum option \<Rightarrow> bool" where
  "comes_after v = (case v of None \<Rightarrow> False | Some n \<Rightarrow> num_less (Num 0) n)"

fun insert_sorted :: "('a \<Rightarrow> 'a \<Rightarrow> js_exception + jsnum option) \<Rightarrow> 'a \<Rightarrow> 'a list \<Rightarrow> js_exception + 'a list" where
  "insert_sorted cmp x [] = Inr [x]"
| "insert_sorted cmp x (y # ys) =
     (case cmp x y of
        Inl e \<Rightarrow> Inl e
      | Inr v \<Rightarrow>
          if comes_after v
          then (case insert_sorted cmp x ys of Inl e \<Rightarrow> Inl e | Inr r \<Rightarrow> Inr (y # r))
          else Inr (x # y # ys))"

fun js_sort :: "('a \<Rightarrow> 'a \<Rightarrow> js_exception + jsnum option) \<Rightarrow> 'a list \<Rightarrow> js_exception + 'a list" where
  "js_sort cmp [] = Inr []"
| "js_sort cmp (x # xs) =
     (case js_sort cmp xs of Inl e \<Rightarrow> Inl e | Inr r \<Rightarrow> insert_sorted cmp x r)"

text \<open>The same sort for a comparator that cannot throw.\<close>

fun insert_sorted_pure :: "('a \<Rightarrow> 'a \<Rightarrow> jsnum option) \<Rightarrow> 'a \<Rightarrow> 'a list \<Rightarrow> 'a list" where
  "insert_sorted_pure cmp x [] = [x]"
| "insert_sorted_pure cmp x (y # ys) =
     (if comes_after (cmp x y) then y # insert_sorted_pure cmp x ys else x # y # ys)"

fun js_sort_pure :: "('a \<Rightarrow> 'a \<Rightarrow> jsnum option) \<Rightarrow> 'a list \<Rightarrow> 'a list" where
  "js_sort_pure cmp [] = []"
| "js_sort_pure cmp (x # xs) = insert_sorted_pure cmp x (js_sort_pure cmp xs)"

section \<open>The parser\<close>

text \<open>
  An \<open>IMDbEntry\<close> is a plain object with string values: its own properties in insertion
  order, as an association list; an assignment to an existing key keeps the key's place.
  \<open>obj_get\<close> reads an own property; the reads made here are at the names \<open>Title Type\<close>,
  \<open>TitleType\<close>, \<open>Year\<close>, \<open>Title\<close>, \<open>Your Rating\<close>, \<open>Genres\<close>, \<open>Directors\<close>,
  \<open>Original Title\<close> and \<open>Date Rated\<close>, none of which is inherited.
\<close>

type_synonym IMDbEntry = "(string \<times> string) list"

definition obj_get :: "IMDbEntry \<Rightarrow> string \<Rightarrow> string option" where
  "obj_get obj k = map_of obj k"

text \<open>\<open>obj[k] = v\<close> for a string \<open>v\<close>.\<close>

definition obj_set :: "IMDbEntry \<Rightarrow> string \<Rightarrow> string \<Rightarrow> IMDbEntry" where
  "obj_set obj k v = (if k = ''__proto__'' then obj else AList.update k v obj)"

text \<open>\<open>Object.keys(obj)\<close> and \<open>k in obj\<close>.\<close>

definition obj_keys :: "IMDbEntry \<Rightarrow> string list" where
  "obj_keys obj = map fst (object_entries obj)"

definition obj_has :: "string \<Rightarrow> IMDbEntry \<Rightarrow> bool" where
  "obj_has k obj = (map_of obj k \<noteq> None \<or> k \<in> set object_prototype_names)"

text \<open>The delimiter: \<open>headerLine.split(',').length >= headerLine.split(';').length\<close>.\<close>

definition detect_delimiter :: "string \<Rightarrow> char" where
  "detect_delimiter headerLine =
     (if length (split_char comma headerLine) \<ge> length (split_char semicolon headerLine)
      then comma else semicolon)"

text \<open>A header field: \<open>h.trim().replace(/^"|"$/g, '')\<close>.\<close>

definition header_field :: "string \<Rightarrow> string" where
  "header_field h = strip_quotes (trim h)"

text \<open>
  A cell: \<open>currentline[j] ? currentline[j].trim().replace(/^"|"$/g, '') : ''\<close>; a read out
  of range is \<open>undefined\<close>, and \<open>undefined\<close> and the empty string both give \<open>''\<close>.
\<close>

definition cell_value :: "string list \<Rightarrow> nat \<Rightarrow> string" where
  "cell_value currentline j =
     (if j < length currentline
      then (let s = currentline ! j in if s = [] then [] else strip_quotes (trim s))
      else [])"

text \<open>The inner loop over \<open>j\<close>, filling one object.\<close>

function fill_row :: "string list \<Rightarrow> string list \<Rightarrow> nat \<Rightarrow> IMDbEntry \<Rightarrow> IMDbEntry" where
  "fill_row header currentline j obj =
     (if j < length header
      then fill_row header currentline (Suc j) (obj_set obj (header ! j) (cell_value currentline j))
      else obj)"
  by pat_completeness auto
termination
  by (relation "measure (\<lambda>(header, currentline, j, obj). length header - j)") auto

declare fill_row.simps [simp del]

text \<open>
  The outer loop over the lines after the header, with its two \<open>continue\<close> branches:
  \<^verbatim>\<open>
  for (let i = 1; i < lines.length; i++) {
      const line = lines[i];
      if (!line.trim()) continue;
      const currentline = line.split(regex);
      if (header.length !== currentline.length) { console.warn(...); continue; }
      const obj = {};
      for (let j = 0; j < header.length; j++) { ... obj[key] = value; }
      result.push(obj);
  }
  \<close>
\<close>

fun parse_rows :: "char \<Rightarrow> string list \<Rightarrow> string list \<Rightarrow> IMDbEntry list \<Rightarrow> IMDbEntry list" where
  "parse_rows delimiter header [] result = result"
| "parse_rows delimiter header (line # rest) result =
     (if trim line = [] then parse_rows delimiter header rest result
      else (let currentline = split_regex delimiter line
            in if length header \<noteq> length currentline
               then parse_rows delimiter header rest result
               else parse_rows delimiter header rest
                      (result @ [fill_row header currentline 0 []])))"

text \<open>
  The removal of a byte order mark, \<open>content.charCodeAt(0) === 0xFEFF\<close>, after the
  \<open>trim\<close> of the text. No code unit below 256 is the mark (and \<open>trim\<close> removes the mark
  as white space before the test is made).
\<close>

definition strip_bom :: "string \<Rightarrow> string" where
  "strip_bom content =
     (case content of
        [] \<Rightarrow> []
      | c # cs \<Rightarrow> if (of_char c :: int) = 0xFEFF then cs else content)"

definition nonblank_lines :: "string \<Rightarrow> string list" where
  "nonblank_lines text = filter (\<lambda>line. trim line \<noteq> []) (split_lines (strip_bom (trim text)))"

definition parse_header :: "string \<Rightarrow> string list" where
  "parse_header headerLine =
     map header_field (split_regex (detect_delimiter headerLine) headerLine)"

definition parseCSV :: "string \<Rightarrow> IMDbEntry list" where
  "parseCSV text =
     (case nonblank_lines text of
        [] \<Rightarrow> []
      | [headerLine] \<Rightarrow> []
      | headerLine # rest \<Rightarrow>
          parse_rows (detect_delimiter headerLine) (parse_header headerLine) rest [])"

text \<open>What the parser sees of a text: its header line, its data lines, its header.\<close>

definition header_line :: "string \<Rightarrow> string" where
  "header_line text = (case nonblank_lines text of [] \<Rightarrow> [] | headerLine # rest \<Rightarrow> headerLine)"

definition data_lines :: "string \<Rightarrow> string list" where
  "data_lines text = (case nonblank_lines text of [] \<Rightarrow> [] | headerLine # rest \<Rightarrow> rest)"

definition csv_delimiter :: "string \<Rightarrow> char" where
  "csv_delimiter text = detect_delimiter (header_line text)"

definition csv_header :: "string \<Rightarrow> string list" where
  "csv_header text = map header_field (split_regex (csv_delimiter text) (header_line text))"

definition field_count :: "string \<Rightarrow> string \<Rightarrow> nat" where
  "field_count text line = length (split_regex (csv_delimiter text) line)"

definition row_record :: "string \<Rightarrow> string \<Rightarrow> IMDbEntry" where
  "row_record text line =
     fill_row (csv_header text) (split_regex (csv_delimiter text) line) 0 []"

section \<open>The application\<close>

record ChartDataPoint =
  year :: string
  count_n :: nat

text \<open>\<open>a || b\<close> for two values that are a string or \<open>undefined\<close>.\<close>

definition js_or :: "string option \<Rightarrow> string option \<Rightarrow> string option" where
  "js_or a b = (case a of None \<Rightarrow> b | Some s \<Rightarrow> if s \<noteq> [] then a else b)"

text \<open>
  The callback of \<open>filterAndProcessMovies\<close>:
  \<^verbatim>\<open>
  const titleType = entry['Title Type'] || entry['TitleType'];
  const yearStr = entry.Year;
  return titleType?.toLowerCase() === 'movie' && yearStr;
  \<close>
\<close>

definition is_movie :: "IMDbEntry \<Rightarrow> bool" where
  "is_movie entry =
     (let titleType = js_or (obj_get entry ''Title Type'') (obj_get entry ''TitleType'');
          yearStr = obj_get entry ''Year''
      in (case titleType of None \<Rightarrow> False | Some t \<Rightarrow> toLowerCase t = ''movie'')
         \<and> (case yearStr of None \<Rightarrow> False | Some y \<Rightarrow> y \<noteq> []))"

definition filterAndProcessMovies :: "IMDbEntry list \<Rightarrow> IMDbEntry list" where
  "filterAndProcessMovies data = filter is_movie data"

text \<open>
  The \<open>forEach\<close> of \<open>createChartData\<close>: \<open>yearCounts\<close> is an object whose keys are the
  strings of the years counted.
  \<^verbatim>\<open>
  const year = parseInt(movie.Year, 10);
  if (!isNaN(year) && year > 1800 && year < 2100) {
    yearCounts[year] = (yearCounts[year] || 0) + 1;
  }
  \<close>
  The result is
  \<^verbatim>\<open>
  Object.entries(yearCounts).map(([year, count]) => ({ year, count }))
    .sort((a, b) => parseInt(a.year, 10) - parseInt(b.year, 10))
  \<close>
\<close>

fun count_years :: "IMDbEntry list \<Rightarrow> (string \<times> nat) list \<Rightarrow> (string \<times> nat) list" where
  "count_years [] yearCounts = yearCounts"
| "count_years (movie # rest) yearCounts =
     (case parseInt (to_str (obj_get movie ''Year'')) of
        None \<Rightarrow> count_years rest yearCounts
      | Some y \<Rightarrow>
          if num_less (Num 1800) y \<and> num_less y (Num 2100)
          then count_years rest
                 (AList.update (number_key y)
                    ((case map_of yearCounts (number_key y) of None \<Rightarrow> 0 | Some c \<Rightarrow> c) + 1)
                    yearCounts)
          else count_years rest yearCounts)"

definition createChartData :: "IMDbEntry list \<Rightarrow> ChartDataPoint list" where
  "createChartData movies =
     js_sort_pure (\<lambda>a b. num_sub (parseInt (year a)) (parseInt (year b)))
       (map (\<lambda>kv. \<lparr>year = fst kv, count_n = snd kv\<rparr>) (object_entries (count_years movies [])))"

text \<open>
  The state of the application. An error is kept by its kind; the message of
  \<open>MissingColumns\<close> holds the names of its list, joined by a comma and a space.
\<close>

datatype upload_error =
  InvalidFileType | ReadFailed | EmptyOrInvalid | MissingColumns "string list" | NoMovies

record AppState =
  allMovies :: "IMDbEntry list"
  chartData :: "ChartDataPoint list"
  fileName :: "string option"
  error :: "upload_error option"
  isLoading :: bool
  selectedYear :: "string option"
  isModalOpen :: bool
  searchTerm :: string
  searchResults :: "IMDbEntry list"
  availableColumns :: "string list"

text \<open>A file: its declared type, its name, and its text once read (\<open>None\<close>: the read fails).\<close>

record File =
  file_type :: string
  file_name :: string
  file_text :: "string option"

definition REQUIRED_COLUMNS :: "string list" where
  "REQUIRED_COLUMNS = [''Const'', ''Title'', ''Year'', ''Your Rating'', ''URL'']"

text \<open>
  The \<open>onload\<close> callback of the reader, with its \<open>try\<close>, \<open>catch\<close> and \<open>finally\<close>. The
  check of the columns is
  \<^verbatim>\<open>
  const missingColumns = REQUIRED_COLUMNS.filter(col => !(col in firstRow));
  const hasTitleType = 'Title Type' in firstRow || 'TitleType' in firstRow;
  if (missingColumns.length > 0 || !hasTitleType) {
      const allMissing = [...missingColumns];
      if (!hasTitleType) allMissing.push('Title Type');
      throw new Error(...);
  }
  \<close>
\<close>

definition on_load :: "string \<Rightarrow> AppState \<Rightarrow> AppState" where
  "on_load text st =
     (let parsedData = parseCSV text
      in case parsedData of
           [] \<Rightarrow> st\<lparr>error := Some EmptyOrInvalid, isLoading := False\<rparr>
         | firstRow # others \<Rightarrow>
             (let st1 = st\<lparr>availableColumns := obj_keys firstRow\<rparr>;
                  missingColumns = filter (\<lambda>col. \<not> obj_has col firstRow) REQUIRED_COLUMNS;
                  hasTitleType = (obj_has ''Title Type'' firstRow \<or> obj_has ''TitleType'' firstRow)
              in if missingColumns \<noteq> [] \<or> \<not> hasTitleType
                 then st1\<lparr>error :=
                            Some (MissingColumns
                              (missingColumns @ (if \<not> hasTitleType then [''Title Type''] else []))),
                          isLoading := False\<rparr>
                 else (let movies = filterAndProcessMovies parsedData
                       in if movies = []
                          then st1\<lparr>error := Some NoMovies, isLoading := False\<rparr>
                          else st1\<lparr>allMovies := movies,
                                   chartData := createChartData movies,
                                   isLoading := False\<rparr>)))"

definition handleFileSelect :: "File option \<Rightarrow> AppState \<Rightarrow> AppState" where
  "handleFileSelect file st =
     (case file of
        None \<Rightarrow> st
      | Some f \<Rightarrow>
          if file_type f \<noteq> ''text/csv'' \<and> \<not> ends_with (file_name f) ''.csv''
          then st\<lparr>error := Some InvalidFileType\<rparr>
          else (let st1 = st\<lparr>isLoading := True, error := None, chartData := [], allMovies := [],
                              fileName := Some (file_name f), searchTerm := [],
                              searchResults := [], availableColumns := []\<rparr>
                in case file_text f of
                     None \<Rightarrow> st1\<lparr>error := Some ReadFailed, isLoading := False\<rparr>
                   | Some text \<Rightarrow> on_load text st1))"

text \<open>
  The search:
  \<^verbatim>\<open>
  if (value.trim() === '') { setSearchResults([]); }
  else {
      const filteredMovies = allMovies
          .filter(movie => movie.Title.toLowerCase().includes(value.toLowerCase()))
          .sort((a, b) => parseInt(b['Your Rating'], 10) - parseInt(a['Your Rating'], 10));
      setSearchResults(filteredMovies);
  }
  \<close>
  \<open>movie.Title.toLowerCase()\<close> throws on a movie with no \<open>Title\<close>, which ends the
  filter at that movie.
\<close>

fun filter_titles :: "string \<Rightarrow> IMDbEntry list \<Rightarrow> js_exception + IMDbEntry list" where
  "filter_titles v [] = Inr []"
| "filter_titles v (movie # rest) =
     (case obj_get movie ''Title'' of
        None \<Rightarrow> Inl TypeError
      | Some t \<Rightarrow>
          (case filter_titles v rest of
             Inl e \<Rightarrow> Inl e
           | Inr kept \<Rightarrow>
               Inr (if str_includes (toLowerCase t) (toLowerCase v) then movie # kept else kept)))"

definition rating_of :: "IMDbEntry \<Rightarrow> jsnum option" where
  "rating_of movie = parseInt (to_str (obj_get movie ''Your Rating''))"

definition by_rating_desc :: "IMDbEntry \<Rightarrow> IMDbEntry \<Rightarrow> js_exception + jsnum option" where
  "by_rating_desc a b = Inr (num_sub (rating_of b) (rating_of a))"

definition handleSearchChange :: "string \<Rightarrow> AppState \<Rightarrow> js_exception + AppState" where
  "handleSearchChange v st =
     (let st1 = st\<lparr>searchTerm := v\<rparr>
      in if trim v = [] then Inr (st1\<lparr>searchResults := []\<rparr>)
         else (case filter_titles v (allMovies st) of
                 Inl e \<Rightarrow> Inl e
               | Inr kept \<Rightarrow>
                   (case js_sort by_rating_desc kept of
                      Inl e \<Rightarrow> Inl e
                    | Inr sorted_movies \<Rightarrow> Inr (st1\<lparr>searchResults := sorted_movies\<rparr>))))"

section \<open>The list of all movies\<close>

text \<open>The table of genre names; the letters outside ASCII are given by their code units.\<close>

definition genreTranslations :: "(string \<times> string) list" where
  "genreTranslations =
     [(''Action'', ''Action''),
      (''Adventure'', CHR 0xC4 # ''ventyr''),
      (''Animation'', ''Animerat''),
      (''Biography'', ''Biografi''),
      (''Comedy'', ''Komedi''),
      (''Crime'', ''Kriminal''),
      (''Documentary'', ''Dokument'' @ [CHR 0xE4] @ ''r''),
      (''Drama'', ''Drama''),
      (''Family'', ''Familj''),
      (''Fantasy'', ''Fantasy''),
      (''Film-Noir'', ''Film-Noir''),
      (''History'', ''Historia''),
      (''Horror'', ''Skr'' @ [CHR 0xE4] @ ''ck''),
      (''Music'', ''Musik''),
      (''Musical'', ''Musikal''),
      (''Mystery'', ''Mysterium''),
      (''Romance'', ''Romantik''),
      (''Sci-Fi'', ''Sci-Fi''),
      (''Short'', ''Kortfilm''),
      (''Sport'', ''Sport''),
      (''Thriller'', ''Thriller''),
      (''War'', ''Krig''),
      (''Western'', ''V'' @ [CHR 0xE4] @ ''stern'')]"

text \<open>
  \<open>genreTranslations[g]\<close>: the name that the table gives or, for a name that the table
  has not and the object prototype has, the inherited member, which is an object and
  no string. A genre is therefore a string or such a member; two members are the same
  when their names are.
\<close>

datatype js_value = Str string | Inherited string

definition table_lookup :: "string \<Rightarrow> js_value option" where
  "table_lookup g =
     (case map_of genreTranslations g of
        Some t \<Rightarrow> Some (Str t)
      | None \<Rightarrow> if g \<in> set object_prototype_names then Some (Inherited g) else None)"

text \<open>\<open>genreTranslations[g] || g\<close>: an empty string is no translation.\<close>

definition translate_genre :: "string \<Rightarrow> js_value" where
  "translate_genre g =
     (case table_lookup g of None \<Rightarrow> Str g | Some v \<Rightarrow> if v = Str [] then Str g else v)"

text \<open>\<open>s.split(', ')\<close>.\<close>

fun split_comma_space :: "string \<Rightarrow> string list" where
  "split_comma_space [] = [[]]"
| "split_comma_space [c] = [[c]]"
| "split_comma_space (c # e # cs) =
     (if c = comma \<and> e = CHR '' '' then [] # split_comma_space cs
      else push_char c (split_comma_space (e # cs)))"

text \<open>The genres of a movie as the filter reads them; no \<open>Genres\<close> field gives none.\<close>

definition movie_genres :: "IMDbEntry \<Rightarrow> js_value list" where
  "movie_genres movie =
     (case obj_get movie ''Genres'' of
        None \<Rightarrow> []
      | Some g \<Rightarrow> map translate_genre (map trim (split_comma_space g)))"

datatype SortOption =
  rating_desc | rating_asc | title_asc | title_desc | original_title_asc
  | original_title_desc | year_desc | year_asc | rated_date_desc | rated_date_asc

text \<open>
  The state of the list. A \<open>Set\<close> is the list of its elements in insertion order. The
  selected genres are genres that were offered, strings or inherited members.
\<close>

record ListState =
  selectedGenres :: "js_value list"
  selectedRatings :: "string list"
  yearRange_min :: string
  yearRange_max :: string
  directorSearchTerm :: string
  sortBy :: SortOption

text \<open>
  The genres offered for selection: the set \<open>genreSet\<close> that the list builds from the
  movies, when a \<open>Genres\<close> column exists.
  \<^verbatim>\<open>
  const genres = movie.Genres?.split(', ').map(g => g.trim()).filter(g => g)
                   .map(g => genreTranslations[g] || g) || [];
  genres.forEach(genre => genreSet.add(genre));
  \<close>
  The check boxes show the elements of this set, sorted; their order is not modelled.
\<close>

definition offered_genres :: "IMDbEntry \<Rightarrow> js_value list" where
  "offered_genres movie =
     (case obj_get movie ''Genres'' of
        None \<Rightarrow> []
      | Some g \<Rightarrow> map translate_genre (filter (\<lambda>e. e \<noteq> []) (map trim (split_comma_space g))))"

definition set_add :: "'a \<Rightarrow> 'a list \<Rightarrow> 'a list" where
  "set_add x s = (if x \<in> set s then s else s @ [x])"

definition genreSet :: "bool \<Rightarrow> IMDbEntry list \<Rightarrow> js_value list" where
  "genreSet hasGenres movies =
     (if \<not> hasGenres then []
      else fold (\<lambda>movie s. fold set_add (offered_genres movie) s) movies [])"

text \<open>
  A click on the check box of a genre: the genre leaves the selected set if it is in
  it, and enters it otherwise. Nothing else writes the selected set.
\<close>

definition handleGenreChange :: "js_value \<Rightarrow> ListState \<Rightarrow> ListState" where
  "handleGenreChange genre ls =
     ls\<lparr>selectedGenres :=
          (if genre \<in> set (selectedGenres ls) then removeAll genre (selectedGenres ls)
           else selectedGenres ls @ [genre])\<rparr>"

text \<open>The least and the greatest year of the movies, found only when a \<open>Genres\<close> column exists.\<close>

fun scan_years :: "IMDbEntry list \<Rightarrow> jsnum \<Rightarrow> jsnum \<Rightarrow> jsnum \<times> jsnum" where
  "scan_years [] mn mx = (mn, mx)"
| "scan_years (movie # rest) mn mx =
     (case parseInt (to_str (obj_get movie ''Year'')) of
        None \<Rightarrow> scan_years rest mn mx
      | Some y \<Rightarrow>
          scan_years rest (if num_less y mn then y else mn)
            (if num_less mx y then y else mx))"

definition year_bounds :: "bool \<Rightarrow> IMDbEntry list \<Rightarrow> jsnum \<times> jsnum" where
  "year_bounds hasGenres movies =
     (if \<not> hasGenres then (PosInf, NegInf) else scan_years movies PosInf NegInf)"

text \<open>\<open>parseInt(s, 10) || d\<close>: \<open>NaN\<close> and \<open>0\<close> give the default.\<close>

definition parsed_or :: "string \<Rightarrow> jsnum \<Rightarrow> jsnum" where
  "parsed_or s d = (case parseInt s of None \<Rightarrow> d | Some n \<Rightarrow> if n \<noteq> Num 0 then n else d)"

text \<open>
  The callback of \<open>movies.filter\<close>: the year, the genres, the ratings and the directors
  are tested in this order, and the first test that fails rejects the movie.
  \<^verbatim>\<open>
  const movieYear = parseInt(movie.Year, 10);
  if (isNaN(movieYear) || movieYear < min || movieYear > max) { return false; }
  if (hasGenres && selectedGenres.size > 0) {
      const movieGenres = new Set(movie.Genres?.split(', ').map(g => g.trim())
                                    .map(g => genreTranslations[g] || g) || []);
      if (!Array.from(selectedGenres).every(g => movieGenres.has(g))) { return false; }
  }
  \<close>
\<close>

definition keeps_movie ::
  "bool \<Rightarrow> bool \<Rightarrow> jsnum \<Rightarrow> jsnum \<Rightarrow> string \<Rightarrow> ListState \<Rightarrow> IMDbEntry \<Rightarrow> bool" where
  "keeps_movie hasGenres hasDirectors mn mx directorSearch ls movie =
     (case parseInt (to_str (obj_get movie ''Year'')) of
        None \<Rightarrow> False
      | Some movieYear \<Rightarrow>
          if num_less movieYear mn \<or> num_less mx movieYear then False
          else if hasGenres \<and> selectedGenres ls \<noteq> []
                  \<and> \<not> list_all (\<lambda>selectedGenre. selectedGenre \<in> set (movie_genres movie))
                         (selectedGenres ls)
          then False
          else if selectedRatings ls \<noteq> []
                  \<and> \<not> (case obj_get movie ''Your Rating'' of
                           None \<Rightarrow> False
                         | Some r \<Rightarrow> r \<in> set (selectedRatings ls))
          then False
          else if hasDirectors \<and> directorSearch \<noteq> []
                  \<and> \<not> str_includes
                         (case obj_get movie ''Directors'' of
                            None \<Rightarrow> []
                          | Some d \<Rightarrow> toLowerCase d)
                         directorSearch
          then False
          else True)"

text \<open>
  The comparators of the sort. \<open>localeCompare\<close> and the time of a date are the
  platform's and its locale's: they are parameters, \<open>dateTime\<close> giving \<open>None\<close> for an
  invalid date (whose time is \<open>NaN\<close>) and else the time, an integer that a double holds.
  A title that is \<open>undefined\<close> throws when
  \<open>localeCompare\<close> is called on it, and is the string \<open>undefined\<close> as its argument.
\<close>

definition compare_titles ::
  "(string \<Rightarrow> string \<Rightarrow> int) \<Rightarrow> string option \<Rightarrow> string option \<Rightarrow> js_exception + jsnum option" where
  "compare_titles localeCompare a b =
     (case a of None \<Rightarrow> Inl TypeError | Some s \<Rightarrow> Inr (Some (Num (localeCompare s (to_str b)))))"

definition original_title :: "IMDbEntry \<Rightarrow> string option" where
  "original_title movie = js_or (obj_get movie ''Original Title'') (obj_get movie ''Title'')"

definition year_of :: "IMDbEntry \<Rightarrow> jsnum option" where
  "year_of movie = parseInt (to_str (obj_get movie ''Year''))"

text \<open>\<open>new Date(movie['Date Rated']).getTime()\<close>; no such field is an invalid date.\<close>

definition date_rated :: "(string \<Rightarrow> int option) \<Rightarrow> IMDbEntry \<Rightarrow> jsnum option" where
  "date_rated dateTime movie =
     (case obj_get movie ''Date Rated'' of None \<Rightarrow> None | Some d \<Rightarrow> map_option Num (dateTime d))"

definition compare_movies ::
  "(string \<Rightarrow> string \<Rightarrow> int) \<Rightarrow> (string \<Rightarrow> int option) \<Rightarrow> bool \<Rightarrow> bool \<Rightarrow> SortOption
     \<Rightarrow> IMDbEntry \<Rightarrow> IMDbEntry \<Rightarrow> js_exception + jsnum option" where
  "compare_movies localeCompare dateTime hasOriginalTitle hasDateRated sort_option a b =
     (case sort_option of
        rating_asc \<Rightarrow> Inr (num_sub (rating_of a) (rating_of b))
      | title_asc \<Rightarrow> compare_titles localeCompare (obj_get a ''Title'') (obj_get b ''Title'')
      | title_desc \<Rightarrow> compare_titles localeCompare (obj_get b ''Title'') (obj_get a ''Title'')
      | original_title_asc \<Rightarrow>
          if \<not> hasOriginalTitle then Inr (Some (Num 0))
          else compare_titles localeCompare (original_title a) (original_title b)
      | original_title_desc \<Rightarrow>
          if \<not> hasOriginalTitle then Inr (Some (Num 0))
          else compare_titles localeCompare (original_title b) (original_title a)
      | year_desc \<Rightarrow> Inr (num_sub (year_of b) (year_of a))
      | year_asc \<Rightarrow> Inr (num_sub (year_of a) (year_of b))
      | rated_date_desc \<Rightarrow>
          if \<not> hasDateRated then Inr (Some (Num 0))
          else Inr (num_sub (date_rated dateTime b) (date_rated dateTime a))
      | rated_date_asc \<Rightarrow>
          if \<not> hasDateRated then Inr (Some (Num 0))
          else Inr (num_sub (date_rated dateTime a) (date_rated dateTime b))
      | rating_desc \<Rightarrow> Inr (num_sub (rating_of b) (rating_of a)))"

text \<open>The movies that pass the filters, before the sort.\<close>

definition filtered :: "IMDbEntry list \<Rightarrow> string list \<Rightarrow> ListState \<Rightarrow> IMDbEntry list" where
  "filtered movies columns ls =
     (let hasGenres = (''Genres'' \<in> set columns);
          hasDirectors = (''Directors'' \<in> set columns);
          bounds = year_bounds hasGenres movies;
          mn = parsed_or (yearRange_min ls) (fst bounds);
          mx = parsed_or (yearRange_max ls) (snd bounds);
          directorSearch = toLowerCase (trim (directorSearchTerm ls))
      in filter (keeps_movie hasGenres hasDirectors mn mx directorSearch ls) movies)"

text \<open>The list shown: \<open>filteredMovies\<close>, the movies kept, sorted.\<close>

definition filteredMovies ::
  "(string \<Rightarrow> string \<Rightarrow> int) \<Rightarrow> (string \<Rightarrow> int option) \<Rightarrow> IMDbEntry list \<Rightarrow> string list
     \<Rightarrow> ListState \<Rightarrow> js_exception + IMDbEntry list" where
  "filteredMovies localeCompare dateTime movies columns ls =
     js_sort
       (compare_movies localeCompare dateTime (''Original Title'' \<in> set columns)
          (''Date Rated'' \<in> set columns) (sortBy ls))
       (filtered movies columns ls)"

section \<open>The rules as the specification words them\<close>

text \<open>
  Unquoting as specified: one leading and one trailing double quote are stripped only
  if both are present.
\<close>

definition spec_unquote :: "string \<Rightarrow> string" where
  "spec_unquote s =
     (if 2 \<le> length s \<and> hd s = dquote \<and> last s = dquote then butlast (tl s) else s)"

text \<open>
  Top-level occurrences as specified: the occurrences of a character outside
  double-quoted spans, \<open>inq\<close> telling whether the scan is inside one.
\<close>

fun top_level_count :: "char \<Rightarrow> bool \<Rightarrow> string \<Rightarrow> nat" where
  "top_level_count d inq [] = 0"
| "top_level_count d inq (c # cs) =
     (if c = dquote then top_level_count d (\<not> inq) cs
      else (if c = d \<and> \<not> inq then 1 else 0) + top_level_count d inq cs)"

definition spec_delimiter :: "string \<Rightarrow> char" where
  "spec_delimiter headerLine =
     (if top_level_count comma False headerLine \<ge> top_level_count semicolon False headerLine
      then comma else semicolon)"

text \<open>
  Splitting as specified: a delimiter is a split point only when an even number of
  double quotes have been seen since the last split point; \<open>ev\<close> is that parity.
\<close>

fun split_parity :: "char \<Rightarrow> bool \<Rightarrow> string \<Rightarrow> string list" where
  "split_parity d ev [] = [[]]"
| "split_parity d ev (c # cs) =
     (if c = d \<and> ev then [] # split_parity d True cs
      else push_char c (split_parity d (if c = dquote then \<not> ev else ev) cs))"

text \<open>
  The title type as specified: read from \<open>Title Type\<close> or, failing that (no such field,
  or an empty one), from \<open>TitleType\<close>.
\<close>

definition title_type_field :: "IMDbEntry \<Rightarrow> string option" where
  "title_type_field entry =
     (case obj_get entry ''Title Type'' of
        None \<Rightarrow> obj_get entry ''TitleType''
      | Some t \<Rightarrow> if t = [] then obj_get entry ''TitleType'' else Some t)"

definition equal_ignoring_case :: "string \<Rightarrow> string \<Rightarrow> bool" where
  "equal_ignoring_case a b = (toLowerCase a = toLowerCase b)"

text \<open>
  The genre list of a movie as the claim words it: the \<open>Genres\<close> field separated at its
  commas, every entry trimmed and translated.
\<close>

definition comma_separated_genres :: "IMDbEntry \<Rightarrow> js_value list" where
  "comma_separated_genres movie =
     (case obj_get movie ''Genres'' of
        None \<Rightarrow> []
      | Some g \<Rightarrow> map translate_genre (map trim (split_char comma g)))"

text \<open>The title of a movie holds the query as a substring, case ignored.\<close>

definition title_contains :: "string \<Rightarrow> IMDbEntry \<Rightarrow> bool" where
  "title_contains q movie =
     (case obj_get movie ''Title'' of
        None \<Rightarrow> False
      | Some t \<Rightarrow> sublist (toLowerCase q) (toLowerCase t))"

text \<open>
  The numeric value of the rating of a movie, and the key that sorts numbers in
  descending order: the greater number has the lesser key.
\<close>

definition rating_value :: "IMDbEntry \<Rightarrow> jsnum" where
  "rating_value movie = (case rating_of movie of None \<Rightarrow> Num 0 | Some r \<Rightarrow> r)"

definition desc_key :: "jsnum \<Rightarrow> int \<times> int" where
  "desc_key v = (case v of PosInf \<Rightarrow> (- 1, 0) | Num n \<Rightarrow> (0, - n) | NegInf \<Rightarrow> (1, 0))"

text \<open>
  The years that count for the chart: the years of the movies, in their order, that
  parse as an integer strictly between 1800 and 2100.
\<close>

definition chart_years :: "IMDbEntry list \<Rightarrow> int list" where
  "chart_years movies =
     filter (\<lambda>y. 1800 < y \<and> y < 2100)
       (List.map_filter (\<lambda>movie. parse_integer (to_str (obj_get movie ''Year''))) movies)"

section \<open>A definition for the proofs\<close>

text \<open>One step of the count of years: the update that a counted year makes.\<close>

definition bump :: "int \<Rightarrow> (string \<times> nat) list \<Rightarrow> (string \<times> nat) list" where
  "bump y yearCounts =
     AList.update (number_to_string y)
       ((case map_of yearCounts (number_to_string y) of None \<Rightarrow> 0 | Some c \<Rightarrow> c) + 1) yearCounts"

section \<open>Example inputs\<close>

text \<open>A file of five data rows whose third row has a field too many.\<close>

definition csv_five_rows :: string where
  "csv_five_rows =
     ''Const,Title'' @ [LF] @ ''tt1,A'' @ [LF] @ ''tt2,B'' @ [LF] @ ''tt3,C,extra'' @ [LF]
     @ ''tt4,D'' @ [CR, LF] @ ''tt5,E'' @ [LF]"

text \<open>A row with a quoted field that holds the delimiter.\<close>

definition quoted_row :: string where
  "quoted_row = ''tt1,'' @ [dquote] @ ''Drama, Romance'' @ [dquote] @ '',1999''"

text \<open>A row with a single double quote.\<close>

definition odd_quote_row :: string where
  "odd_quote_row = ''a,'' @ [dquote] @ ''b,c''"

text \<open>A header whose only comma is inside a quoted field.\<close>

definition quoted_comma_header :: string where
  "quoted_comma_header = [dquote] @ ''a,b'' @ [dquote] @ '';c''"

text \<open>A file whose one data row holds a quoted field with the delimiter inside.\<close>

definition csv_quoted_genres :: string where
  "csv_quoted_genres = ''Const,Genres,Year'' @ [LF] @ quoted_row"

text \<open>Entries: three movies with the genres of the example, a movie whose year is no number, a series.\<close>

definition movie_drama :: IMDbEntry where
  "movie_drama = [(''Const'', ''tt1''), (''Title'', ''Alpha''), (''Year'', ''1999''), (''Title Type'', ''Movie''),
                  (''Your Rating'', ''7''), (''URL'', ''u1''), (''Genres'', ''Drama'')]"

definition movie_drama_war :: IMDbEntry where
  "movie_drama_war = [(''Const'', ''tt2''), (''Title'', ''Beta''), (''Year'', ''1999''), (''Title Type'', ''movie''),
                  (''Your Rating'', ''9''), (''URL'', ''u2''), (''Genres'', ''Drama, War'')]"

definition movie_war_comedy :: IMDbEntry where
  "movie_war_comedy = [(''Const'', ''tt3''), (''Title'', ''Alphabet''), (''Year'', ''2001''), (''Title Type'', ''MOVIE''),
                  (''Your Rating'', ''8''), (''URL'', ''u3''), (''Genres'', ''War, Comedy'')]"

definition movie_bad_year :: IMDbEntry where
  "movie_bad_year = [(''Const'', ''tt4''), (''Title'', ''Delta''), (''Year'', ''abc''), (''Title Type'', ''movie''),
                  (''Your Rating'', ''8''), (''URL'', ''u4''), (''Genres'', ''War'')]"

definition series_entry :: IMDbEntry where
  "series_entry = [(''Const'', ''tt5''), (''Title'', ''Epsilon''), (''Year'', ''2005''), (''Title Type'', ''tvSeries''),
                  (''Your Rating'', ''8''), (''URL'', ''u5''), (''Genres'', ''War'')]"

definition example_movies :: "IMDbEntry list" where
  "example_movies = [movie_drama, movie_drama_war, movie_war_comedy, movie_bad_year]"

definition example_columns :: "string list" where
  "example_columns = [''Const'', ''Title'', ''Year'', ''Title Type'', ''Your Rating'', ''URL'', ''Genres'']"

definition default_list :: ListState where
  "default_list = \<lparr>selectedGenres = [], selectedRatings = [], yearRange_min = [], yearRange_max = [],
                    directorSearchTerm = [], sortBy = rating_desc\<rparr>"

definition no_locale :: "string \<Rightarrow> string \<Rightarrow> int" where "no_locale a b = 0"

definition no_date :: "string \<Rightarrow> int option" where "no_date s = None"

definition genre_movies :: "IMDbEntry list" where
  "genre_movies = [movie_drama, movie_drama_war, movie_war_comedy]"

definition csv_missing_columns :: string where
  "csv_missing_columns = ''Const,Title,Year,Your Rating'' @ [LF] @ ''tt1,Alpha,1999,7''"

definition csv_file :: "string \<Rightarrow> File" where
  "csv_file text = \<lparr>file_type = ''text/csv'', file_name = ''ratings.csv'', file_text = Some text\<rparr>"

definition initial_state :: AppState where
  "initial_state = \<lparr>allMovies = [], chartData = [], fileName = None, error = None, isLoading = False,
      selectedYear = None, isModalOpen = False, searchTerm = [], searchResults = [], availableColumns = []\<rparr>"

text \<open>A movie whose title type is under \<open>TitleType\<close>, with an empty \<open>Title Type\<close>.\<close>

definition movie_alias :: IMDbEntry where
  "movie_alias = [(''Const'', ''tt6''), (''Title'', ''Zeta''), (''Year'', ''2010''), (''Title Type'', []),
                  (''TitleType'', ''MOVIE''), (''Your Rating'', ''5''), (''URL'', ''u6'')]"

text \<open>A movie with an empty year, and one of the year 1750.\<close>

definition movie_no_year :: IMDbEntry where
  "movie_no_year = [(''Const'', ''tt7''), (''Title'', ''Eta''), (''Year'', []), (''Title Type'', ''movie''),
                  (''Your Rating'', ''5''), (''URL'', ''u7'')]"

definition movie_old :: IMDbEntry where
  "movie_old = [(''Const'', ''tt8''), (''Title'', ''Theta''), (''Year'', ''1750''), (''Title Type'', ''movie''),
                  (''Your Rating'', ''6''), (''URL'', ''u8''), (''Genres'', ''War'')]"

text \<open>A state whose movies are the four example movies.\<close>

definition search_state :: AppState where
  "search_state = initial_state\<lparr>allMovies := example_movies\<rparr>"

text \<open>A file whose header has the field \<open>__proto__\<close>.\<close>

definition csv_proto_header :: string where
  "csv_proto_header = ''__proto__,Title'' @ [LF] @ ''x,y''"

text \<open>Two movies whose ratings, beyond \<open>2^53\<close>, have one double, and a state with them.\<close>

definition movie_big_even :: IMDbEntry where
  "movie_big_even = [(''Const'', ''tt9''), (''Title'', ''Big even''), (''Year'', ''2000''),
                     (''Title Type'', ''movie''), (''Your Rating'', ''9007199254740992''), (''URL'', ''u9'')]"

definition movie_big_odd :: IMDbEntry where
  "movie_big_odd = [(''Const'', ''tt10''), (''Title'', ''Big odd''), (''Year'', ''2000''),
                    (''Title Type'', ''movie''), (''Your Rating'', ''9007199254740993''), (''URL'', ''u10'')]"

definition big_state :: AppState where
  "big_state = initial_state\<lparr>allMovies := [movie_big_even, movie_big_odd]\<rparr>"

text \<open>A movie whose genres are written with no space after the comma.\<close>

definition movie_no_space :: IMDbEntry where
  "movie_no_space = [(''Const'', ''tt11''), (''Title'', ''Iota''), (''Year'', ''2003''),
                     (''Title Type'', ''movie''), (''Your Rating'', ''6''), (''URL'', ''u11''),
                     (''Genres'', ''Drama,War'')]"

text \<open>The state of the list after the clicks on the genres offered for Drama and for War.\<close>

definition drama_and_war :: ListState where
  "drama_and_war =
     handleGenreChange (translate_genre ''War'')
       (handleGenreChange (translate_genre ''Drama'') default_list)"

section \<open>Properties of the parser\<close>

subsection \<open>The lookahead and the splits\<close>

lemma skip_to_quote_None: "skip_to_quote s = None \<Longrightarrow> count_list s dquote = 0"
  by (induction s) (auto split: if_splits)

lemma skip_to_quote_Some:
  "skip_to_quote s = Some r \<Longrightarrow> count_list s dquote = Suc (count_list r dquote)"
  by (induction s) (auto split: if_splits)

lemma lookahead_even: "lookahead s = even (count_list s dquote)"
proof (induction s rule: lookahead.induct)
  case (1 s)
  show ?case
  proof (cases "skip_to_quote s")
    case None
    then show ?thesis by (simp add: lookahead.simps [of s] skip_to_quote_None)
  next
    case (Some r)
    note sr = this
    show ?thesis
    proof (cases "skip_to_quote r")
      case None
      with sr show ?thesis
        by (simp add: lookahead.simps [of s] skip_to_quote_None skip_to_quote_Some)
    next
      case (Some r')
      with sr "1.IH" [of r r'] show ?thesis
        by (simp add: lookahead.simps [of s] skip_to_quote_Some)
    qed
  qed
qed

lemma split_char_nonempty: "split_char d s \<noteq> []"
  by (induction s) (auto simp: push_char_def split: list.splits)

lemma length_push_char: "fs \<noteq> [] \<Longrightarrow> length (push_char c fs) = length fs"
  by (cases fs) (auto simp: push_char_def)

lemma length_split_char: "length (split_char d s) = Suc (count_list s d)"
  by (induction s) (auto simp: length_push_char split_char_nonempty)

lemma split_regex_parity:
  "d \<noteq> dquote \<Longrightarrow> ev = even (count_list s dquote) \<Longrightarrow> split_regex d s = split_parity d ev s"
proof (induction s arbitrary: ev)
  case Nil
  then show ?case by simp
next
  case (Cons c cs)
  then show ?case by (auto simp: lookahead_even)
qed

lemma detect_delimiter_cases: "detect_delimiter h = comma \<or> detect_delimiter h = semicolon"
  by (simp add: detect_delimiter_def)

lemma detect_delimiter_not_quote: "detect_delimiter h \<noteq> dquote"
  using detect_delimiter_cases [of h] by (auto simp: comma_def semicolon_def dquote_def)

subsection \<open>Unquoting\<close>

lemma strip_quotes_decomp:
  "t = (if t \<noteq> [] \<and> hd t = dquote then [dquote] else []) @ strip_quotes t @
       (if 2 \<le> length t \<and> last t = dquote then [dquote] else [])"
proof (cases t)
  case Nil
  then show ?thesis by (simp add: strip_quotes_def)
next
  case (Cons c cs)
  show ?thesis
  proof (cases cs rule: rev_cases)
    case Nil
    with Cons show ?thesis by (simp add: strip_quotes_def)
  next
    case (snoc bs b)
    with Cons show ?thesis by (auto simp: strip_quotes_def butlast_append)
  qed
qed

lemma strip_quotes_Nil: "strip_quotes [] = []"
  by (simp add: strip_quotes_def)

lemma trim_Nil: "trim [] = []"
  by (simp add: trim_def)

lemma cell_value_header_field:
  "cell_value cl j = (if j < length cl then header_field (cl ! j) else [])"
  by (simp add: cell_value_def header_field_def Let_def strip_quotes_Nil trim_Nil)

lemma strip_quotes_spec:
  assumes "(t \<noteq> [] \<and> hd t = dquote) = (2 \<le> length t \<and> last t = dquote)"
  shows "strip_quotes t = spec_unquote t"
proof (cases t)
  case Nil
  then show ?thesis by (simp add: strip_quotes_def spec_unquote_def)
next
  case (Cons c cs)
  show ?thesis
  proof (cases cs rule: rev_cases)
    case Nil
    with Cons assms show ?thesis by (auto simp: strip_quotes_def spec_unquote_def)
  next
    case (snoc bs b)
    with Cons assms show ?thesis by (auto simp: strip_quotes_def spec_unquote_def butlast_append)
  qed
qed

lemma top_level_count_no_quote:
  "dquote \<notin> set h \<Longrightarrow> top_level_count d False h = count_list h d"
  by (induction h) auto

subsection \<open>Rows\<close>

lemma set_object_entries: "set (object_entries obj) = set obj"
  by (auto simp: object_entries_def)

lemma set_obj_keys: "set (obj_keys obj) = fst ` set obj"
  by (simp add: obj_keys_def set_object_entries)

lemma obj_keys_set:
  "set (obj_keys (obj_set obj k v)) =
     (if k = ''__proto__'' then set (obj_keys obj) else insert k (set (obj_keys obj)))"
  by (simp add: set_obj_keys obj_set_def AList.dom_update)

lemma keys_fill_row:
  "set (obj_keys (fill_row header cl j obj)) =
     set (obj_keys obj) \<union> (set (drop j header) - {''__proto__''})"
proof (induction header cl j obj rule: fill_row.induct)
  case (1 header cl j obj)
  show ?case
  proof (cases "j < length header")
    case True
    then have "set (drop j header) = insert (header ! j) (set (drop (Suc j) header))"
      by (simp add: Cons_nth_drop_Suc [symmetric])
    with True "1.IH" show ?thesis
      by (auto simp: fill_row.simps [of header cl j obj] obj_keys_set)
  next
    case False
    then show ?thesis by (simp add: fill_row.simps [of header cl j obj])
  qed
qed

lemma update_fresh: "k \<notin> fst ` set al \<Longrightarrow> AList.update k v al = al @ [(k, v)]"
  by (induction al) auto

lemma fill_row_zip:
  assumes "distinct header" "''__proto__'' \<notin> set header"
    and "fst ` set obj \<inter> set (drop j header) = {}"
  shows "fill_row header cl j obj =
           obj @ zip (drop j header) (map (cell_value cl) [j..<length header])"
  using assms
proof (induction header cl j obj rule: fill_row.induct)
  case (1 header cl j obj)
  show ?case
  proof (cases "j < length header")
    case True
    let ?k = "header ! j"
    let ?obj = "obj_set obj ?k (cell_value cl j)"
    from True have d: "drop j header = ?k # drop (Suc j) header"
      by (simp add: Cons_nth_drop_Suc)
    from True "1.prems"(2) have p: "?k \<noteq> ''__proto__''"
      by (metis nth_mem)
    from d "1.prems"(3) have "?k \<notin> fst ` set obj" by auto
    with p have o: "?obj = obj @ [(?k, cell_value cl j)]"
      by (simp add: obj_set_def update_fresh)
    from "1.prems"(1) have "distinct (drop j header)" by simp
    with d have "?k \<notin> set (drop (Suc j) header)" by simp
    with "1.prems"(3) d have "fst ` set ?obj \<inter> set (drop (Suc j) header) = {}"
      by (auto simp: o)
    with "1.IH" [OF True "1.prems"(1,2)]
    have "fill_row header cl (Suc j) ?obj =
            ?obj @ zip (drop (Suc j) header) (map (cell_value cl) [Suc j..<length header])"
      by simp
    with True show ?thesis
      by (simp add: fill_row.simps [of header cl j obj] o d upt_conv_Cons)
  next
    case False
    then show ?thesis by (simp add: fill_row.simps [of header cl j obj])
  qed
qed

lemma map_cell_value:
  "map (cell_value cl) [0..<length cl] = map header_field cl"
  by (rule nth_equalityI) (simp_all add: cell_value_header_field)

lemma parse_rows_filter:
  "parse_rows d header ls acc =
     acc @ map (\<lambda>line. fill_row header (split_regex d line) 0 [])
            (filter (\<lambda>line. trim line \<noteq> [] \<and> length (split_regex d line) = length header) ls)"
  by (induction ls arbitrary: acc) (auto simp: Let_def)

lemma nonblank_lines_nonblank: "line \<in> set (nonblank_lines text) \<Longrightarrow> trim line \<noteq> []"
  by (simp add: nonblank_lines_def)

lemma data_lines_nonblank: "line \<in> set (data_lines text) \<Longrightarrow> trim line \<noteq> []"
proof -
  assume "line \<in> set (data_lines text)"
  then have "line \<in> set (nonblank_lines text)"
    by (cases "nonblank_lines text") (auto simp: data_lines_def)
  then show ?thesis by (rule nonblank_lines_nonblank)
qed

lemma parseCSV_eq:
  "parseCSV text = map (row_record text)
     (filter (\<lambda>line. field_count text line = length (csv_header text)) (data_lines text))"
proof -
  have f: "filter (\<lambda>line. trim line \<noteq> [] \<and> P line) (data_lines text) = filter P (data_lines text)" for P
    by (rule filter_cong) (auto dest: data_lines_nonblank)
  show ?thesis
  proof (cases "nonblank_lines text")
    case Nil
    then show ?thesis by (simp add: parseCSV_def data_lines_def)
  next
    case (Cons h rest)
    then have dl: "data_lines text = rest" and hl: "header_line text = h"
      by (simp_all add: data_lines_def header_line_def)
    have "parseCSV text = parse_rows (detect_delimiter h) (parse_header h) rest []"
      using Cons by (cases rest) (simp_all add: parseCSV_def)
    also have "\<dots> = map (row_record text)
        (filter (\<lambda>line. trim line \<noteq> [] \<and> field_count text line = length (csv_header text)) (data_lines text))"
      by (simp add: parse_rows_filter dl hl row_record_def field_count_def csv_header_def
          parse_header_def csv_delimiter_def eq_commute cong: conj_cong)
    finally show ?thesis by (simp only: f)
  qed
qed

lemma row_record_keys:
  "set (obj_keys (row_record text line)) = set (csv_header text) - {''__proto__''}"
  by (simp add: row_record_def keys_fill_row) (simp add: set_obj_keys)

lemma row_record_zip:
  assumes "distinct (csv_header text)" "''__proto__'' \<notin> set (csv_header text)"
    and "field_count text line = length (csv_header text)"
  shows "row_record text line =
           zip (csv_header text) (map header_field (split_regex (csv_delimiter text) line))"
proof -
  let ?cl = "split_regex (csv_delimiter text) line"
  from assms(3) have l: "length (csv_header text) = length ?cl"
    by (simp add: field_count_def)
  have "row_record text line =
          zip (csv_header text) (map (cell_value ?cl) [0..<length (csv_header text)])"
    unfolding row_record_def using assms(1,2) by (subst fill_row_zip) simp_all
  then show ?thesis by (simp add: l map_cell_value)
qed

text \<open>
  Claim C1, as amended. For every text, the parser returns one record for each data
  line (a non-blank line after the header line) whose number of fields is the
  header's, in the order of the lines; a line with another number of fields gives no
  record and the lines after it are still read, so that a text whose data lines all
  match gives as many records as it has data lines. The header has as many fields as
  its line splits into. When no field of the header is \<open>__proto__\<close>, the keys of every
  record are the fields of the header; when moreover the fields of the header differ
  from each other, the record of a line pairs them, in their order, with the trimmed
  and unquoted fields of the line.
\<close>

theorem parseCSV_one_record_per_matching_line:
  "parseCSV text =
     map (row_record text)
       (filter (\<lambda>line. field_count text line = length (csv_header text)) (data_lines text))
   \<and> length (csv_header text) = field_count text (header_line text)
   \<and> (''__proto__'' \<notin> set (csv_header text)
        \<longrightarrow> (\<forall>r \<in> set (parseCSV text). set (obj_keys r) = set (csv_header text)))
   \<and> (distinct (csv_header text) \<and> ''__proto__'' \<notin> set (csv_header text)
        \<longrightarrow> parseCSV text =
              map (\<lambda>line. zip (csv_header text)
                            (map header_field (split_regex (csv_delimiter text) line)))
                (filter (\<lambda>line. field_count text line = length (csv_header text))
                   (data_lines text)))
   \<and> ((\<forall>line \<in> set (data_lines text). field_count text line = length (csv_header text))
        \<longrightarrow> length (parseCSV text) = length (data_lines text))"
proof (intro conjI)
  show eq: "parseCSV text =
     map (row_record text)
       (filter (\<lambda>line. field_count text line = length (csv_header text)) (data_lines text))"
    by (rule parseCSV_eq)
  show "length (csv_header text) = field_count text (header_line text)"
    by (simp add: csv_header_def field_count_def)
  show "''__proto__'' \<notin> set (csv_header text)
        \<longrightarrow> (\<forall>r \<in> set (parseCSV text). set (obj_keys r) = set (csv_header text))"
    by (auto simp: eq row_record_keys)
  show "distinct (csv_header text) \<and> ''__proto__'' \<notin> set (csv_header text)
        \<longrightarrow> parseCSV text =
              map (\<lambda>line. zip (csv_header text)
                            (map header_field (split_regex (csv_delimiter text) line)))
                (filter (\<lambda>line. field_count text line = length (csv_header text))
                   (data_lines text))"
  proof
    assume a: "distinct (csv_header text) \<and> ''__proto__'' \<notin> set (csv_header text)"
    have "map (row_record text)
            (filter (\<lambda>line. field_count text line = length (csv_header text)) (data_lines text))
          = map (\<lambda>line. zip (csv_header text)
                            (map header_field (split_regex (csv_delimiter text) line)))
              (filter (\<lambda>line. field_count text line = length (csv_header text)) (data_lines text))"
      using a by (intro map_cong) (simp_all add: row_record_zip)
    with eq show "parseCSV text =
              map (\<lambda>line. zip (csv_header text)
                            (map header_field (split_regex (csv_delimiter text) line)))
                (filter (\<lambda>line. field_count text line = length (csv_header text))
                   (data_lines text))"
      by simp
  qed
  show "(\<forall>line \<in> set (data_lines text). field_count text line = length (csv_header text))
        \<longrightarrow> length (parseCSV text) = length (data_lines text)"
  proof
    assume "\<forall>line \<in> set (data_lines text). field_count text line = length (csv_header text)"
    then have "filter (\<lambda>line. field_count text line = length (csv_header text)) (data_lines text)
                 = data_lines text"
      by (simp add: filter_id_conv)
    then show "length (parseCSV text) = length (data_lines text)"
      by (simp add: eq)
  qed
qed

text \<open>
  The five-row file: the rows 1, 2, 4 and 5 give the four records, each with the keys
  of the header.
\<close>

theorem parseCSV_one_record_per_matching_line_witness:
  "data_lines csv_five_rows = [''tt1,A'', ''tt2,B'', ''tt3,C,extra'', ''tt4,D'', ''tt5,E'']
   \<and> csv_header csv_five_rows = [''Const'', ''Title'']
   \<and> ''__proto__'' \<notin> set (csv_header csv_five_rows)
   \<and> parseCSV csv_five_rows =
       [[(''Const'', ''tt1''), (''Title'', ''A'')], [(''Const'', ''tt2''), (''Title'', ''B'')],
        [(''Const'', ''tt4''), (''Title'', ''D'')], [(''Const'', ''tt5''), (''Title'', ''E'')]]
   \<and> set (obj_keys [(''Const'', ''tt5''), (''Title'', ''E'')]) = set (csv_header csv_five_rows)"
proof -
  have d: "data_lines csv_five_rows = [''tt1,A'', ''tt2,B'', ''tt3,C,extra'', ''tt4,D'', ''tt5,E'']"
    by code_simp
  have h: "csv_header csv_five_rows = [''Const'', ''Title'']"
    by code_simp
  have n: "''__proto__'' \<notin> set (csv_header csv_five_rows)"
    by (simp add: h)
  have p: "parseCSV csv_five_rows =
       [[(''Const'', ''tt1''), (''Title'', ''A'')], [(''Const'', ''tt2''), (''Title'', ''B'')],
        [(''Const'', ''tt4''), (''Title'', ''D'')], [(''Const'', ''tt5''), (''Title'', ''E'')]]"
    by code_simp
  have "\<forall>r \<in> set (parseCSV csv_five_rows). set (obj_keys r) = set (csv_header csv_five_rows)"
    using parseCSV_one_record_per_matching_line [of csv_five_rows] n by blast
  then have "set (obj_keys [(''Const'', ''tt5''), (''Title'', ''E'')]) = set (csv_header csv_five_rows)"
    by (simp add: p)
  with d h n p show ?thesis by simp
qed

text \<open>
  Claim C1 as stated fails on a header with the field \<open>__proto__\<close>: the assignment
  of that name creates no property, so the record of the line \<open>x,y\<close> has the one key
  \<open>Title\<close> where the header has two fields.
\<close>

theorem parseCSV_proto_header_counterexample:
  "csv_header csv_proto_header = [''__proto__'', ''Title'']
   \<and> parseCSV csv_proto_header = [[(''Title'', ''y'')]]
   \<and> set (obj_keys [(''Title'', ''y'')]) \<noteq> set (csv_header csv_proto_header)"
  by code_simp

text \<open>
  Claim C4, as amended. A field value is the trimmed field without a double quote at
  its start, if there is one, and without a double quote at its end, if there is one:
  each end is stripped on its own, so a field with a quote on one side only loses it.
  What lies between the two ends is kept as it is (doubled quotes are not unescaped).
  A cell of a data line is made as a header field is. When the trimmed field has a
  quote at both ends or at neither, this is the specified rule.
\<close>

theorem field_value_strips_each_end:
  "trim s =
     (if trim s \<noteq> [] \<and> hd (trim s) = dquote then [dquote] else [])
     @ header_field s
     @ (if 2 \<le> length (trim s) \<and> last (trim s) = dquote then [dquote] else [])
   \<and> cell_value cl j = (if j < length cl then header_field (cl ! j) else [])
   \<and> ((trim s \<noteq> [] \<and> hd (trim s) = dquote) = (2 \<le> length (trim s) \<and> last (trim s) = dquote)
        \<longrightarrow> header_field s = spec_unquote (trim s))"
proof (intro conjI impI)
  show "trim s =
     (if trim s \<noteq> [] \<and> hd (trim s) = dquote then [dquote] else [])
     @ header_field s
     @ (if 2 \<le> length (trim s) \<and> last (trim s) = dquote then [dquote] else [])"
    unfolding header_field_def by (rule strip_quotes_decomp)
  show "cell_value cl j = (if j < length cl then header_field (cl ! j) else [])"
    by (rule cell_value_header_field)
  assume "(trim s \<noteq> [] \<and> hd (trim s) = dquote) = (2 \<le> length (trim s) \<and> last (trim s) = dquote)"
  then show "header_field s = spec_unquote (trim s)"
    unfolding header_field_def by (rule strip_quotes_spec)
qed

theorem field_value_strips_each_end_witness:
  "header_field ('' '' @ [dquote] @ ''Drama, Romance'' @ [dquote] @ '' '') = ''Drama, Romance''
   \<and> spec_unquote (trim ('' '' @ [dquote] @ ''Drama, Romance'' @ [dquote] @ '' '')) = ''Drama, Romance''"
proof -
  let ?s = "'' '' @ [dquote] @ ''Drama, Romance'' @ [dquote] @ '' ''"
  have "(trim ?s \<noteq> [] \<and> hd (trim ?s) = dquote) = (2 \<le> length (trim ?s) \<and> last (trim ?s) = dquote)"
    by code_simp
  with field_value_strips_each_end [of ?s] have e: "header_field ?s = spec_unquote (trim ?s)"
    by blast
  have "spec_unquote (trim ?s) = ''Drama, Romance''"
    by code_simp
  with e show ?thesis by simp
qed

text \<open>
  Claim C4 as stated fails: a field with a double quote at its start only, or at its
  end only, loses that quote, in a header and in a data line alike.
\<close>

theorem field_value_one_sided_quote_counterexample:
  "header_field ([dquote] @ ''abc'') = ''abc''
   \<and> spec_unquote (trim ([dquote] @ ''abc'')) = [dquote] @ ''abc''
   \<and> header_field ([dquote] @ ''abc'') \<noteq> spec_unquote (trim ([dquote] @ ''abc''))
   \<and> cell_value [''abc'' @ [dquote]] 0 = ''abc''
   \<and> spec_unquote (trim (''abc'' @ [dquote])) = ''abc'' @ [dquote]
   \<and> cell_value [''abc'' @ [dquote]] 0 \<noteq> spec_unquote (trim (''abc'' @ [dquote]))"
  by code_simp

text \<open>
  Claim C5, as amended. The delimiter is the comma exactly when the header line holds
  at least as many commas as semicolons, all occurrences counted, those inside
  double-quoted spans too; otherwise it is the semicolon. So \<open>Const,Title,Year\<close> gives
  the comma, \<open>Const;Title;Year\<close> the semicolon, and a header with as many of each the
  comma. On a header line with no double quote this is the choice by top-level
  occurrences.
\<close>

theorem detect_delimiter_counts_all:
  "detect_delimiter h =
     (if count_list h comma \<ge> count_list h semicolon then comma else semicolon)
   \<and> detect_delimiter ''Const,Title,Year'' = comma
   \<and> detect_delimiter ''Const;Title;Year'' = semicolon
   \<and> detect_delimiter ''Const,Title;Year Rated'' = comma
   \<and> (dquote \<notin> set h \<longrightarrow> detect_delimiter h = spec_delimiter h)"
proof (intro conjI impI)
  show "detect_delimiter h =
     (if count_list h comma \<ge> count_list h semicolon then comma else semicolon)"
    by (simp add: detect_delimiter_def length_split_char)
  show "detect_delimiter ''Const,Title,Year'' = comma"
    by code_simp
  show "detect_delimiter ''Const;Title;Year'' = semicolon"
    by code_simp
  show "detect_delimiter ''Const,Title;Year Rated'' = comma"
    by code_simp
  assume "dquote \<notin> set h"
  then show "detect_delimiter h = spec_delimiter h"
    by (simp add: detect_delimiter_def spec_delimiter_def length_split_char
        top_level_count_no_quote)
qed

theorem detect_delimiter_counts_all_witness:
  "dquote \<notin> set ''Const;Title;Year''
   \<and> detect_delimiter ''Const;Title;Year'' = spec_delimiter ''Const;Title;Year''
   \<and> spec_delimiter ''Const;Title;Year'' = semicolon"
proof -
  have q: "dquote \<notin> set ''Const;Title;Year''"
    by (simp add: dquote_def)
  with detect_delimiter_counts_all [of "''Const;Title;Year''"]
  have "detect_delimiter ''Const;Title;Year'' = spec_delimiter ''Const;Title;Year''"
    by blast
  moreover have "spec_delimiter ''Const;Title;Year'' = semicolon"
    by code_simp
  ultimately show ?thesis using q by simp
qed

text \<open>
  Claim C5 as stated fails: in the header \<open>"a,b";c\<close> the only comma is inside a quoted
  span, so the top-level count favours the semicolon, and the code chooses the comma.
\<close>

theorem detect_delimiter_top_level_counterexample:
  "top_level_count comma False quoted_comma_header = 0
   \<and> top_level_count semicolon False quoted_comma_header = 1
   \<and> spec_delimiter quoted_comma_header = semicolon
   \<and> detect_delimiter quoted_comma_header = comma
   \<and> detect_delimiter quoted_comma_header \<noteq> spec_delimiter quoted_comma_header"
  by code_simp

text \<open>
  Claim C6, as amended. An occurrence of the delimiter is a split point exactly when
  the number of double quotes after it, up to the end of the line, is even: that is
  what the lookahead of the expression tests. On a line whose number of double quotes
  is even, this is the rule of the parity since the last split point, for the
  delimiter chosen from any header line, so a delimiter inside a double-quoted field
  stays within one field.
\<close>

theorem split_regex_even_quotes_after:
  "lookahead cs = even (count_list cs dquote)
   \<and> split_regex d (c # cs) =
       (if c = d \<and> even (count_list cs dquote) then [] # split_regex d cs
        else push_char c (split_regex d cs))
   \<and> (even (count_list s dquote)
        \<longrightarrow> split_regex (detect_delimiter h) s = split_parity (detect_delimiter h) True s)"
proof (intro conjI impI)
  show "lookahead cs = even (count_list cs dquote)"
    by (rule lookahead_even)
  show "split_regex d (c # cs) =
       (if c = d \<and> even (count_list cs dquote) then [] # split_regex d cs
        else push_char c (split_regex d cs))"
    by (simp add: lookahead_even)
  assume "even (count_list s dquote)"
  then show "split_regex (detect_delimiter h) s = split_parity (detect_delimiter h) True s"
    by (simp add: split_regex_parity detect_delimiter_not_quote)
qed

theorem split_regex_even_quotes_after_witness:
  "even (count_list quoted_row dquote)
   \<and> detect_delimiter ''Const,Genres,Year'' = comma
   \<and> split_parity comma True quoted_row = [''tt1'', [dquote] @ ''Drama, Romance'' @ [dquote], ''1999'']
   \<and> split_regex comma quoted_row = [''tt1'', [dquote] @ ''Drama, Romance'' @ [dquote], ''1999'']
   \<and> parseCSV csv_quoted_genres =
       [[(''Const'', ''tt1''), (''Genres'', ''Drama, Romance''), (''Year'', ''1999'')]]"
proof -
  have h: "even (count_list quoted_row dquote)"
    by code_simp
  have c: "detect_delimiter ''Const,Genres,Year'' = comma"
    by code_simp
  from h split_regex_even_quotes_after [of _ _ _ quoted_row "''Const,Genres,Year''"]
  have e: "split_regex comma quoted_row = split_parity comma True quoted_row"
    by (simp add: c)
  have p: "split_parity comma True quoted_row = [''tt1'', [dquote] @ ''Drama, Romance'' @ [dquote], ''1999'']"
    by code_simp
  have r: "parseCSV csv_quoted_genres =
       [[(''Const'', ''tt1''), (''Genres'', ''Drama, Romance''), (''Year'', ''1999'')]]"
    by code_simp
  from h c e p r show ?thesis by simp
qed

text \<open>
  Claim C6 as stated fails on a line with an odd number of double quotes: in
  \<open>a,"b,c\<close> the first comma has no quote before it and one after it. The parity since
  the last split point splits there and not at the second comma; the code does the
  opposite.
\<close>

theorem split_regex_odd_quotes_counterexample:
  "split_parity comma True odd_quote_row = [''a'', [dquote] @ ''b,c'']
   \<and> split_regex comma odd_quote_row = [''a,'' @ [dquote] @ ''b'', ''c'']
   \<and> split_regex comma odd_quote_row \<noteq> split_parity comma True odd_quote_row"
  by code_simp

section \<open>Properties of the application\<close>

subsection \<open>The movie filter\<close>

lemma lower_movie: "toLowerCase ''movie'' = ''movie''"
  by code_simp

lemma is_movie_iff:
  "is_movie entry =
     (\<exists>t y. title_type_field entry = Some t \<and> equal_ignoring_case t ''movie''
            \<and> obj_get entry ''Year'' = Some y \<and> y \<noteq> [])"
  by (auto simp: is_movie_def title_type_field_def equal_ignoring_case_def js_or_def lower_movie Let_def
      split: option.splits)

text \<open>
  Claim C3. For every sequence of records, the filter keeps exactly the records whose
  title type (the value of \<open>Title Type\<close> or, failing that, of \<open>TitleType\<close>) equals
  \<open>movie\<close> with the case ignored and whose \<open>Year\<close> is a non-empty string; the records
  kept stand in the order they had.
\<close>

theorem filterAndProcessMovies_keeps_movies:
  "filterAndProcessMovies data = filter (\<lambda>entry. entry \<in> set (filterAndProcessMovies data)) data
   \<and> (\<forall>entry \<in> set data.
         entry \<in> set (filterAndProcessMovies data) \<longleftrightarrow>
           (\<exists>t y. title_type_field entry = Some t \<and> equal_ignoring_case t ''movie''
                  \<and> obj_get entry ''Year'' = Some y \<and> y \<noteq> []))
   \<and> set (filterAndProcessMovies data) \<subseteq> set data"
proof (intro conjI ballI)
  show "filterAndProcessMovies data = filter (\<lambda>entry. entry \<in> set (filterAndProcessMovies data)) data"
    unfolding filterAndProcessMovies_def by (rule filter_cong) auto
  show "set (filterAndProcessMovies data) \<subseteq> set data"
    by (simp add: filterAndProcessMovies_def)
  fix entry
  assume "entry \<in> set data"
  then show "entry \<in> set (filterAndProcessMovies data) \<longleftrightarrow>
           (\<exists>t y. title_type_field entry = Some t \<and> equal_ignoring_case t ''movie''
                  \<and> obj_get entry ''Year'' = Some y \<and> y \<noteq> [])"
    by (simp add: filterAndProcessMovies_def is_movie_iff)
qed

text \<open>
  Of two movies, a series and a movie with an empty year, the two movies are kept, in
  their order; the second has its title type under \<open>TitleType\<close>.
\<close>

theorem filterAndProcessMovies_keeps_movies_witness:
  "filterAndProcessMovies [movie_drama, series_entry, movie_alias, movie_no_year]
     = [movie_drama, movie_alias]
   \<and> title_type_field movie_alias = Some ''MOVIE''
   \<and> (movie_alias \<in> set (filterAndProcessMovies [movie_drama, series_entry, movie_alias, movie_no_year]))
       = (\<exists>t y. title_type_field movie_alias = Some t \<and> equal_ignoring_case t ''movie''
                \<and> obj_get movie_alias ''Year'' = Some y \<and> y \<noteq> [])"
proof -
  let ?data = "[movie_drama, series_entry, movie_alias, movie_no_year]"
  have f: "filterAndProcessMovies ?data = [movie_drama, movie_alias]"
    by code_simp
  have t: "title_type_field movie_alias = Some ''MOVIE''"
    by code_simp
  have "movie_alias \<in> set ?data"
    by simp
  with filterAndProcessMovies_keeps_movies [of ?data]
  have "(movie_alias \<in> set (filterAndProcessMovies ?data))
       = (\<exists>t y. title_type_field movie_alias = Some t \<and> equal_ignoring_case t ''movie''
                \<and> obj_get movie_alias ''Year'' = Some y \<and> y \<noteq> [])"
    by blast
  with f t show ?thesis by blast
qed

subsection \<open>The upload\<close>

lemma obj_has_keys:
  "k \<notin> set object_prototype_names \<Longrightarrow> obj_has k obj = (k \<in> set (obj_keys obj))"
  by (simp add: obj_has_def set_obj_keys map_of_eq_None_iff)

lemma proto_inherited: "''__proto__'' \<in> set object_prototype_names"
  by (simp add: object_prototype_names_def)

lemma parsed_row_has:
  assumes "r \<in> set (parseCSV text)" "col \<notin> set object_prototype_names"
  shows "obj_has col r = (col \<in> set (csv_header text))"
proof -
  from assms(1) obtain line where "r = row_record text line"
    by (auto simp: parseCSV_eq)
  moreover from assms(2) proto_inherited have "col \<noteq> ''__proto__''" by auto
  ultimately show ?thesis using assms(2) by (simp add: obj_has_keys row_record_keys)
qed

lemma required_not_inherited:
  "col \<in> set REQUIRED_COLUMNS \<union> {''Title Type'', ''TitleType''}
   \<Longrightarrow> col \<notin> set object_prototype_names"
  by (auto simp: REQUIRED_COLUMNS_def object_prototype_names_def)

text \<open>
  Claim C8. When the text of an accepted file parses to at least one record and its
  header lacks one of \<open>Const\<close>, \<open>Title\<close>, \<open>Year\<close>, \<open>Your Rating\<close>, \<open>URL\<close>, or lacks
  both \<open>Title Type\<close> and \<open>TitleType\<close>, the upload ends with the error of the missing
  columns, which names every required column that the header lacks and, when both
  spellings of the title type are missing, the one name \<open>Title Type\<close>; no movie and no
  chart are kept.
\<close>

theorem missing_columns_all_reported:
  assumes "file_type f = ''text/csv'' \<or> ends_with (file_name f) ''.csv''"
    and "file_text f = Some text"
    and "parseCSV text \<noteq> []"
    and "(\<exists>col \<in> set REQUIRED_COLUMNS. col \<notin> set (csv_header text))
         \<or> (''Title Type'' \<notin> set (csv_header text) \<and> ''TitleType'' \<notin> set (csv_header text))"
  shows "error (handleFileSelect (Some f) st) =
           Some (MissingColumns
             (filter (\<lambda>col. col \<notin> set (csv_header text)) REQUIRED_COLUMNS
              @ (if ''Title Type'' \<notin> set (csv_header text) \<and> ''TitleType'' \<notin> set (csv_header text)
                 then [''Title Type''] else [])))
         \<and> allMovies (handleFileSelect (Some f) st) = []
         \<and> chartData (handleFileSelect (Some f) st) = []"
proof -
  from assms(3) obtain firstRow others where p: "parseCSV text = firstRow # others"
    by (cases "parseCSV text") auto
  have k: "obj_has col firstRow = (col \<in> set (csv_header text))"
    if "col \<in> set REQUIRED_COLUMNS \<union> {''Title Type'', ''TitleType''}" for col
    using p that by (intro parsed_row_has required_not_inherited) simp_all
  have m: "filter (\<lambda>col. \<not> obj_has col firstRow) REQUIRED_COLUMNS
             = filter (\<lambda>col. col \<notin> set (csv_header text)) REQUIRED_COLUMNS"
    by (rule filter_cong) (simp_all add: k)
  have c: "filter (\<lambda>col. col \<notin> set (csv_header text)) REQUIRED_COLUMNS \<noteq> []
           \<or> (''Title Type'' \<notin> set (csv_header text) \<and> ''TitleType'' \<notin> set (csv_header text))"
    using assms(4) by (auto simp: filter_empty_conv)
  show ?thesis
    using assms(1,2) c
    by (auto simp: handleFileSelect_def on_load_def p m k Let_def)
qed

text \<open>A file with neither \<open>URL\<close> nor a title type column: both are reported.\<close>

theorem missing_columns_all_reported_witness:
  "parseCSV csv_missing_columns \<noteq> []
   \<and> csv_header csv_missing_columns = [''Const'', ''Title'', ''Year'', ''Your Rating'']
   \<and> error (handleFileSelect (Some (csv_file csv_missing_columns)) initial_state)
       = Some (MissingColumns [''URL'', ''Title Type''])"
proof -
  let ?f = "csv_file csv_missing_columns"
  have a: "file_type ?f = ''text/csv'' \<or> ends_with (file_name ?f) ''.csv''"
    by (simp add: csv_file_def)
  have b: "file_text ?f = Some csv_missing_columns"
    by (simp add: csv_file_def)
  have c: "parseCSV csv_missing_columns \<noteq> []"
    by code_simp
  have h: "csv_header csv_missing_columns = [''Const'', ''Title'', ''Year'', ''Your Rating'']"
    by code_simp
  have d: "(\<exists>col \<in> set REQUIRED_COLUMNS. col \<notin> set (csv_header csv_missing_columns))
         \<or> (''Title Type'' \<notin> set (csv_header csv_missing_columns)
             \<and> ''TitleType'' \<notin> set (csv_header csv_missing_columns))"
    by (simp add: h)
  have "error (handleFileSelect (Some ?f) initial_state)
       = Some (MissingColumns [''URL'', ''Title Type''])"
    using missing_columns_all_reported [OF a b c d, of initial_state]
    by (simp add: h REQUIRED_COLUMNS_def)
  with c h show ?thesis by simp
qed

text \<open>
  The movies of the state always have a title: an upload either leaves them as they
  were or replaces them by records of a file whose header has \<open>Title\<close>.
\<close>

lemma on_load_movies:
  "allMovies (on_load text st) = allMovies st
   \<or> (''Title'' \<in> set (csv_header text)
       \<and> set (allMovies (on_load text st)) \<subseteq> set (parseCSV text))"
proof (cases "parseCSV text")
  case Nil
  then show ?thesis by (simp add: on_load_def)
next
  case (Cons firstRow others)
  have "''Title'' \<in> set REQUIRED_COLUMNS \<union> {''Title Type'', ''TitleType''}"
    by (simp add: REQUIRED_COLUMNS_def)
  then have k: "obj_has ''Title'' firstRow = (''Title'' \<in> set (csv_header text))"
    using Cons by (intro parsed_row_has required_not_inherited) simp_all
  show ?thesis
  proof (cases "''Title'' \<in> set (csv_header text)")
    case True
    then show ?thesis
      using Cons by (auto simp: on_load_def Let_def filterAndProcessMovies_def)
  next
    case False
    with k have "filter (\<lambda>col. \<not> obj_has col firstRow) REQUIRED_COLUMNS \<noteq> []"
      by (simp add: REQUIRED_COLUMNS_def)
    then show ?thesis
      using Cons by (simp add: on_load_def Let_def)
  qed
qed

lemma upload_keeps_titles:
  assumes "\<forall>m \<in> set (allMovies st). obj_get m ''Title'' \<noteq> None"
  shows "\<forall>m \<in> set (allMovies (handleFileSelect file st)). obj_get m ''Title'' \<noteq> None"
proof (cases "file")
  case None
  with assms show ?thesis by (simp add: handleFileSelect_def)
next
  case (Some f)
  let ?st1 = "st\<lparr>isLoading := True, error := None, chartData := [], allMovies := [],
                 fileName := Some (file_name f), searchTerm := [],
                 searchResults := [], availableColumns := []\<rparr>"
  show ?thesis
  proof (cases "file_type f \<noteq> ''text/csv'' \<and> \<not> ends_with (file_name f) ''.csv''")
    case True
    with Some assms show ?thesis by (simp add: handleFileSelect_def)
  next
    case False
    show ?thesis
    proof (cases "file_text f")
      case None
      with \<open>file = Some f\<close> False show ?thesis by (auto simp: handleFileSelect_def Let_def)
    next
      case (Some body)
      with \<open>file = Some f\<close> False
      have h: "handleFileSelect file st = on_load body ?st1"
        by (auto simp: handleFileSelect_def Let_def)
      from on_load_movies [of body ?st1] show ?thesis
      proof
        assume "allMovies (on_load body ?st1) = allMovies ?st1"
        then show ?thesis by (simp add: h)
      next
        assume a: "''Title'' \<in> set (csv_header body)
                   \<and> set (allMovies (on_load body ?st1)) \<subseteq> set (parseCSV body)"
        show ?thesis
        proof
          fix m assume "m \<in> set (allMovies (handleFileSelect file st))"
          with a h have "m \<in> set (parseCSV body)" by auto
          moreover have t: "''Title'' \<notin> set object_prototype_names"
            by (simp add: object_prototype_names_def)
          ultimately have "obj_has ''Title'' m" using a by (simp add: parsed_row_has)
          with t show "obj_get m ''Title'' \<noteq> None" by (simp add: obj_has_def obj_get_def)
        qed
      qed
    qed
  qed
qed

subsection \<open>Numbers and their strings\<close>

lemma scale_props:
  "0 < w \<Longrightarrow> 4503599627370496 \<le> n div w \<Longrightarrow> scale n w = (q, w')
   \<Longrightarrow> 0 < w' \<and> q = n div w' \<and> 4503599627370496 \<le> q"
proof (induction n w rule: scale.induct)
  case (1 n w)
  show ?case
  proof (cases "n div w < 9007199254740992")
    case True
    with "1.prems" show ?thesis by (auto simp: scale.simps [of n w])
  next
    case False
    have d: "n div (2 * w) = n div w div 2"
      by (simp add: mult.commute [of 2 w] zdiv_zmult2_eq)
    from False have "4503599627370496 \<le> n div (2 * w)"
      unfolding d by simp
    moreover from False "1.prems" have "scale n (2 * w) = (q, w')"
      by (simp add: scale.simps [of n w])
    moreover from "1.prems" have "0 < 2 * w" by simp
    ultimately show ?thesis using "1.IH" [OF False] by blast
  qed
qed

lemma round_even_big:
  assumes "9007199254740992 \<le> m"
  shows "4503599627370496 \<le> round_even m"
proof -
  obtain q w where s: "scale m 1 = (q, w)" by (cases "scale m 1")
  from assms have "4503599627370496 \<le> m div 1" by simp
  with s scale_props [of 1 m q w] have p: "0 < w" "4503599627370496 \<le> q" by simp_all
  define q' where "q' = (if 2 * (m mod w) > w \<or> (2 * (m mod w) = w \<and> odd q) then q + 1 else q)"
  have "q \<le> q'" by (simp add: q'_def)
  with p have "4503599627370496 \<le> q'" by simp
  moreover have "1 \<le> w" using p by simp
  ultimately have "4503599627370496 * 1 \<le> q' * w"
    by (intro mult_mono) simp_all
  moreover have "round_even m = q' * w"
    by (simp add: round_even_def s Let_def q'_def)
  ultimately show ?thesis by simp
qed

lemma to_number_small: "\<bar>n\<bar> < 9007199254740992 \<Longrightarrow> to_number n = Num n"
proof -
  assume a: "\<bar>n\<bar> < 9007199254740992"
  have "(9007199254740992 :: int) \<le> 2 ^ 1024" by simp
  with a have "\<not> (2 ^ 1024 \<le> \<bar>n\<bar>)" by linarith
  with a show ?thesis by (auto simp: to_number_def Let_def)
qed

lemma to_number_big_pos:
  assumes "9007199254740992 \<le> n"
  shows "to_number n = PosInf \<or> (\<exists>v. to_number n = Num v \<and> 4503599627370496 \<le> v)"
proof -
  from assms have "\<bar>n\<bar> = n" "\<not> n < 0" "\<not> \<bar>n\<bar> < 9007199254740992" by simp_all
  moreover from assms have "4503599627370496 \<le> round_even n" by (rule round_even_big)
  ultimately show ?thesis by (simp add: to_number_def Let_def)
qed

lemma to_number_big_neg:
  assumes "n \<le> - 9007199254740992"
  shows "to_number n = NegInf \<or> (\<exists>v. to_number n = Num v \<and> v \<le> - 4503599627370496)"
proof -
  from assms have a: "\<bar>n\<bar> = - n" "n < 0" "\<not> \<bar>n\<bar> < 9007199254740992" by simp_all
  from assms have "4503599627370496 \<le> round_even (- n)" by (intro round_even_big) simp
  with a show ?thesis by (simp add: to_number_def Let_def)
qed

lemma to_number_cases:
  "(\<bar>n\<bar> < 9007199254740992 \<and> to_number n = Num n)
   \<or> (9007199254740992 \<le> n \<and> (to_number n = PosInf \<or> (\<exists>v. to_number n = Num v \<and> 4503599627370496 \<le> v)))
   \<or> (n \<le> - 9007199254740992 \<and> (to_number n = NegInf \<or> (\<exists>v. to_number n = Num v \<and> v \<le> - 4503599627370496)))"
proof -
  consider "\<bar>n\<bar> < 9007199254740992" | "9007199254740992 \<le> n" | "n \<le> - 9007199254740992"
    by linarith
  then show ?thesis
  proof cases
    case 1
    then show ?thesis by (simp add: to_number_small)
  next
    case 2
    with to_number_big_pos [OF 2] show ?thesis by blast
  next
    case 3
    with to_number_big_neg [OF 3] show ?thesis by blast
  qed
qed

lemma to_number_positive: "num_less (Num 0) (to_number d) = (0 < d)"
  using to_number_cases [of d] by auto

lemma to_number_in_range:
  "(num_less (Num 1800) (to_number n) \<and> num_less (to_number n) (Num 2100)) = (1800 < n \<and> n < 2100)"
  using to_number_cases [of n] by auto

lemma to_number_year: "1800 < n \<Longrightarrow> n < 2100 \<Longrightarrow> to_number n = Num n"
  by (simp add: to_number_small)

lemma comes_after_minus: "comes_after (num_minus y x) = num_less x y"
  by (cases x; cases y) (simp_all add: comes_after_def to_number_positive)

lemma desc_key_less: "(desc_key b < desc_key a) = num_less a b"
  by (cases a; cases b) (simp_all add: desc_key_def)

lemma is_digit_char_of: "0 \<le> d \<Longrightarrow> d < 10 \<Longrightarrow> is_digit (char_of (48 + d :: int))"
  by (simp add: is_digit_def)

lemma digit_value_char_of: "0 \<le> d \<Longrightarrow> d < 10 \<Longrightarrow> digit_value (char_of (48 + d :: int)) = d"
  by (simp add: digit_value_def)

lemma digits_of_digits: "0 \<le> n \<Longrightarrow> c \<in> set (digits_of n) \<Longrightarrow> is_digit c"
proof (induction n rule: digits_of.induct)
  case (1 n)
  show ?case
  proof (cases "n < 10")
    case True
    with "1.prems" show ?thesis
      by (simp add: digits_of.simps [of n] is_digit_char_of)
  next
    case False
    with "1.prems" "1.IH" show ?thesis
      by (auto simp: digits_of.simps [of n] is_digit_char_of)
  qed
qed

lemma digits_of_nonempty: "digits_of n \<noteq> []"
  by (simp add: digits_of.simps [of n])

lemma digits_value_snoc: "digits_value (ds @ [c]) = 10 * digits_value ds + digit_value c"
  by (simp add: digits_value_def)

lemma digits_value_digits_of: "0 \<le> n \<Longrightarrow> digits_value (digits_of n) = n"
proof (induction n rule: digits_of.induct)
  case (1 n)
  show ?case
  proof (cases "n < 10")
    case True
    with "1.prems" show ?thesis
      by (simp add: digits_of.simps [of n] digits_value_def digit_value_char_of)
  next
    case False
    with "1.prems" "1.IH" show ?thesis
      by (simp add: digits_of.simps [of n] digits_value_snoc digit_value_char_of)
  qed
qed

lemma digit_not_ws: "is_digit c \<Longrightarrow> \<not> is_ws c"
  by (auto simp: is_digit_def is_ws_def)

lemma digit_not_sign: "is_digit c \<Longrightarrow> c \<noteq> CHR ''-'' \<and> c \<noteq> CHR ''+''"
  by (auto simp: is_digit_def)

lemma parse_integer_digits:
  assumes "ds \<noteq> []" "\<forall>c \<in> set ds. is_digit c"
  shows "parse_integer ds = Some (digits_value ds)"
proof -
  from assms obtain c cs where ds: "ds = c # cs" by (cases ds) auto
  with assms have c: "is_digit c" by simp
  have d: "dropWhile is_ws ds = ds" using c ds by (simp add: digit_not_ws)
  have t: "takeWhile is_digit ds = ds" using assms(2) by (simp add: takeWhile_eq_all_conv)
  have h: "hd ds \<noteq> CHR ''-''" "hd ds \<noteq> CHR ''+''"
    using digit_not_sign [OF c] ds by simp_all
  show ?thesis
    unfolding parse_integer_def d Let_def using h assms(1) by (simp add: t)
qed

lemma parse_integer_number_to_string:
  "0 \<le> n \<Longrightarrow> parse_integer (number_to_string n) = Some n"
  by (simp add: number_to_string_def parse_integer_digits digits_of_nonempty digits_of_digits
      digits_value_digits_of)

lemma number_to_string_inj: "0 \<le> m \<Longrightarrow> 0 \<le> n \<Longrightarrow> number_to_string m = number_to_string n \<Longrightarrow> m = n"
  by (metis parse_integer_number_to_string option.inject)

lemma array_index_number_to_string:
  "0 \<le> n \<Longrightarrow> n < 4294967295 \<Longrightarrow> array_index (number_to_string n) = Some n"
  by (simp add: array_index_def parse_integer_number_to_string)

lemma parseInt_year:
  "1800 < n \<Longrightarrow> n < 2100 \<Longrightarrow> parseInt (number_to_string n) = Some (Num n)"
  by (simp add: parseInt_def parse_integer_number_to_string to_number_small)

subsection \<open>The sort\<close>

lemma insert_sorted_mset: "insert_sorted cmp x ys = Inr r \<Longrightarrow> mset r = add_mset x (mset ys)"
  by (induction ys arbitrary: r) (auto split: sum.splits if_splits)

lemma js_sort_mset: "js_sort cmp xs = Inr r \<Longrightarrow> mset r = mset xs"
  by (induction xs arbitrary: r) (auto split: sum.splits dest: insert_sorted_mset)

lemma js_sort_set: "js_sort cmp xs = Inr r \<Longrightarrow> set r = set xs"
  using js_sort_mset [of cmp xs r] by (metis set_mset_mset)

lemma insert_sorted_insort:
  fixes key :: "'a \<Rightarrow> 'k :: linorder"
  assumes "\<forall>y \<in> set ys. \<exists>v. cmp x y = Inr v \<and> comes_after v = (key y < key x)"
  shows "insert_sorted cmp x ys = Inr (insort_key key x ys)"
  using assms by (induction ys) (auto simp: not_le)

lemma js_sort_sort_key:
  fixes key :: "'a \<Rightarrow> 'k :: linorder"
  assumes "\<forall>x \<in> set xs. \<forall>y \<in> set xs. \<exists>v. cmp x y = Inr v \<and> comes_after v = (key y < key x)"
  shows "js_sort cmp xs = Inr (sort_key key xs)"
  using assms
proof (induction xs)
  case Nil
  then show ?case by simp
next
  case (Cons x xs)
  then have t: "js_sort cmp xs = Inr (sort_key key xs)" by simp
  have "\<forall>y \<in> set (sort_key key xs). \<exists>v. cmp x y = Inr v \<and> comes_after v = (key y < key x)"
    using Cons.prems by simp
  then show ?case by (simp add: t insert_sorted_insort)
qed

lemma js_sort_pure_sorted:
  assumes "\<forall>x \<in> set xs. p x = Some (Num (k x))" "sorted (map k xs)"
  shows "js_sort_pure (\<lambda>a b. num_sub (p a) (p b)) xs = xs"
  using assms
proof (induction xs)
  case Nil
  then show ?case by simp
next
  case (Cons x xs)
  then have t: "js_sort_pure (\<lambda>a b. num_sub (p a) (p b)) xs = xs" by simp
  show ?case
  proof (cases xs)
    case Nil
    then show ?thesis by simp
  next
    case (Cons y ys)
    with Cons.prems have "p x = Some (Num (k x))" "p y = Some (Num (k y))" "k x \<le> k y" by auto
    then show ?thesis
      using t Cons by (simp add: num_sub_def comes_after_def to_number_positive)
  qed
qed

subsection \<open>The search\<close>

lemma starts_with_prefix: "starts_with s q = prefix q s"
  by (induction s q rule: starts_with.induct) auto

lemma str_includes_sublist: "str_includes s q = sublist q s"
proof (induction s)
  case Nil
  then show ?case by simp
next
  case (Cons c cs)
  then show ?case by (simp add: starts_with_prefix sublist_Cons_right)
qed

lemma filter_titles_all:
  "\<forall>m \<in> set movies. obj_get m ''Title'' \<noteq> None \<Longrightarrow>
   filter_titles q movies = Inr (filter (title_contains q) movies)"
  by (induction movies) (auto simp: title_contains_def str_includes_sublist)

lemma by_rating_desc_key:
  assumes "rating_of a \<noteq> None" "rating_of b \<noteq> None"
  shows "\<exists>v. by_rating_desc a b = Inr v
           \<and> comes_after v = (desc_key (rating_value b) < desc_key (rating_value a))"
proof -
  from assms obtain x y where xy: "rating_of a = Some x" "rating_of b = Some y" by auto
  then have "by_rating_desc a b = Inr (num_minus y x)"
    by (simp add: by_rating_desc_def num_sub_def)
  moreover have "comes_after (num_minus y x) = (desc_key y < desc_key x)"
    by (simp add: comes_after_minus desc_key_less)
  ultimately show ?thesis using xy by (simp add: rating_value_def)
qed

lemma rating_value_exact:
  assumes "parse_integer (to_str (obj_get m ''Your Rating'')) = Some n" "\<bar>n\<bar> < 9007199254740992"
  shows "rating_value m = Num n"
  using assms by (simp add: rating_value_def rating_of_def parseInt_def to_number_small)

text \<open>
  Claim C7. A query that is empty, or white space only, gives the empty sequence of
  results. For any other query, over movies that all have a title, as the movies of
  an accepted upload have, and when the rating of every movie kept parses as an
  integer, the results are exactly the movies whose title holds the query as a
  substring with the case ignored, sorted by descending numeric value of the rating
  (and in their former order where the values are equal). The numeric value of a
  rating is the number that the parse gives: the integer itself when its magnitude is
  below \<open>2^53\<close>, and the double nearest to it otherwise.
\<close>

theorem search_results_filtered_and_sorted:
  "(trim q = [] \<longrightarrow> handleSearchChange q st = Inr (st\<lparr>searchTerm := q, searchResults := []\<rparr>))
   \<and> (trim q \<noteq> []
        \<and> (\<forall>m \<in> set (allMovies st). obj_get m ''Title'' \<noteq> None)
        \<and> (\<forall>m \<in> set (allMovies st). title_contains q m \<longrightarrow> rating_of m \<noteq> None)
       \<longrightarrow> (\<exists>rs. handleSearchChange q st = Inr (st\<lparr>searchTerm := q, searchResults := rs\<rparr>)
              \<and> rs = sort_key (\<lambda>m. desc_key (rating_value m))
                       (filter (title_contains q) (allMovies st))
              \<and> mset rs = mset (filter (title_contains q) (allMovies st))
              \<and> sorted_wrt (\<lambda>a b. \<not> num_less (rating_value a) (rating_value b)) rs))
   \<and> (\<forall>n. parse_integer (to_str (obj_get movie ''Your Rating'')) = Some n
            \<and> \<bar>n\<bar> < 9007199254740992
          \<longrightarrow> rating_value movie = Num n)"
proof (intro conjI impI allI)
  assume "trim q = []"
  then show "handleSearchChange q st = Inr (st\<lparr>searchTerm := q, searchResults := []\<rparr>)"
    by (simp add: handleSearchChange_def)
next
  assume a: "trim q \<noteq> []
        \<and> (\<forall>m \<in> set (allMovies st). obj_get m ''Title'' \<noteq> None)
        \<and> (\<forall>m \<in> set (allMovies st). title_contains q m \<longrightarrow> rating_of m \<noteq> None)"
  let ?kept = "filter (title_contains q) (allMovies st)"
  let ?key = "\<lambda>m. desc_key (rating_value m)"
  let ?rs = "sort_key ?key ?kept"
  have f: "filter_titles q (allMovies st) = Inr ?kept"
    using a by (simp add: filter_titles_all)
  have "\<forall>x \<in> set ?kept. \<forall>y \<in> set ?kept.
          \<exists>v. by_rating_desc x y = Inr v \<and> comes_after v = (?key y < ?key x)"
    using a by (simp add: by_rating_desc_key)
  then have s: "js_sort by_rating_desc ?kept = Inr ?rs"
    by (rule js_sort_sort_key)
  have h: "handleSearchChange q st = Inr (st\<lparr>searchTerm := q, searchResults := ?rs\<rparr>)"
    using a by (simp add: handleSearchChange_def f s)
  have "sorted (map ?key ?rs)"
    by simp
  then have "sorted_wrt (\<lambda>a b. ?key a \<le> ?key b) ?rs"
    by (simp add: sorted_wrt_map del: sorted_sort_key sorted_sort)
  then have o: "sorted_wrt (\<lambda>a b. \<not> num_less (rating_value a) (rating_value b)) ?rs"
    by (rule sorted_wrt_mono_rel [rotated]) (simp add: desc_key_less [symmetric] not_less)
  from h o show "\<exists>rs. handleSearchChange q st = Inr (st\<lparr>searchTerm := q, searchResults := rs\<rparr>)
              \<and> rs = ?rs \<and> mset rs = mset ?kept
              \<and> sorted_wrt (\<lambda>a b. \<not> num_less (rating_value a) (rating_value b)) rs"
    by simp
next
  fix n
  assume "parse_integer (to_str (obj_get movie ''Your Rating'')) = Some n
            \<and> \<bar>n\<bar> < 9007199254740992"
  then show "rating_value movie = Num n"
    by (simp add: rating_value_exact)
qed

text \<open>
  Over the four example movies, the query \<open>ALPHA\<close> finds \<open>Alphabet\<close>, rated 8, before
  \<open>Alpha\<close>, rated 7; a query of two spaces finds nothing. Two ratings beyond \<open>2^53\<close>
  with one double have one numeric value, and their movies keep their order.
\<close>

theorem search_results_filtered_and_sorted_witness:
  "handleSearchChange ''  '' search_state
     = Inr (search_state\<lparr>searchTerm := ''  '', searchResults := []\<rparr>)
   \<and> handleSearchChange ''ALPHA'' search_state
     = Inr (search_state\<lparr>searchTerm := ''ALPHA'', searchResults := [movie_war_comedy, movie_drama]\<rparr>)
   \<and> rating_value movie_drama = Num 7
   \<and> rating_value movie_big_even = Num 9007199254740992
   \<and> rating_value movie_big_odd = Num 9007199254740992
   \<and> handleSearchChange ''big'' big_state
     = Inr (big_state\<lparr>searchTerm := ''big'', searchResults := [movie_big_even, movie_big_odd]\<rparr>)"
proof -
  have e: "trim ''  '' = []"
    by code_simp
  have n: "trim ''ALPHA'' \<noteq> []
        \<and> (\<forall>m \<in> set (allMovies search_state). obj_get m ''Title'' \<noteq> None)
        \<and> (\<forall>m \<in> set (allMovies search_state). title_contains ''ALPHA'' m \<longrightarrow> rating_of m \<noteq> None)"
    by code_simp
  have k: "sort_key (\<lambda>m. desc_key (rating_value m))
             (filter (title_contains ''ALPHA'') (allMovies search_state))
             = [movie_war_comedy, movie_drama]"
    by code_simp
  have b: "trim ''big'' \<noteq> []
        \<and> (\<forall>m \<in> set (allMovies big_state). obj_get m ''Title'' \<noteq> None)
        \<and> (\<forall>m \<in> set (allMovies big_state). title_contains ''big'' m \<longrightarrow> rating_of m \<noteq> None)"
    by code_simp
  have l: "sort_key (\<lambda>m. desc_key (rating_value m))
             (filter (title_contains ''big'') (allMovies big_state))
             = [movie_big_even, movie_big_odd]"
    by code_simp
  have v: "rating_value movie_big_even = Num 9007199254740992"
    "rating_value movie_big_odd = Num 9007199254740992"
    by code_simp+
  have p: "parse_integer (to_str (obj_get movie_drama ''Your Rating'')) = Some 7
            \<and> \<bar>7 :: int\<bar> < 9007199254740992"
    by code_simp
  from search_results_filtered_and_sorted [of "''  ''" search_state] e
  have r1: "handleSearchChange ''  '' search_state
     = Inr (search_state\<lparr>searchTerm := ''  '', searchResults := []\<rparr>)"
    by blast
  from search_results_filtered_and_sorted [of "''ALPHA''" search_state] n
  have "handleSearchChange ''ALPHA'' search_state
     = Inr (search_state\<lparr>searchTerm := ''ALPHA'',
              searchResults := sort_key (\<lambda>m. desc_key (rating_value m))
                (filter (title_contains ''ALPHA'') (allMovies search_state))\<rparr>)"
    by blast
  then have r2: "handleSearchChange ''ALPHA'' search_state
     = Inr (search_state\<lparr>searchTerm := ''ALPHA'', searchResults := [movie_war_comedy, movie_drama]\<rparr>)"
    by (simp only: k)
  from search_results_filtered_and_sorted [of "''big''" big_state] b
  have "handleSearchChange ''big'' big_state
     = Inr (big_state\<lparr>searchTerm := ''big'',
              searchResults := sort_key (\<lambda>m. desc_key (rating_value m))
                (filter (title_contains ''big'') (allMovies big_state))\<rparr>)"
    by blast
  then have r3: "handleSearchChange ''big'' big_state
     = Inr (big_state\<lparr>searchTerm := ''big'', searchResults := [movie_big_even, movie_big_odd]\<rparr>)"
    by (simp only: l)
  from search_results_filtered_and_sorted [of _ _ movie_drama] p
  have r4: "rating_value movie_drama = Num 7"
    by blast
  from r1 r2 r3 r4 v show ?thesis by simp
qed

subsection \<open>The chart\<close>

lemma count_years_fold: "count_years movies acc = fold bump (chart_years movies) acc"
  by (induction movies arbitrary: acc)
     (auto simp: chart_years_def List.map_filter_simps parseInt_def bump_def number_key_def
        to_number_in_range to_number_small split: option.splits)

lemma chart_years_range: "y \<in> set (chart_years movies) \<Longrightarrow> 1800 < y \<and> y < 2100"
  by (simp add: chart_years_def)

lemma fold_bump_keys:
  "fst ` set (fold bump ys acc) = fst ` set acc \<union> number_to_string ` set ys"
  by (induction ys arbitrary: acc) (auto simp: bump_def AList.dom_update)

lemma fold_bump_distinct:
  "distinct (map fst acc) \<Longrightarrow> distinct (map fst (fold bump ys acc))"
  by (induction ys arbitrary: acc) (auto simp: bump_def AList.distinct_update)

lemma map_of_bump:
  "map_of (bump x acc) k =
     (if k = number_to_string x
      then Some ((case map_of acc k of None \<Rightarrow> 0 | Some c \<Rightarrow> c) + 1)
      else map_of acc k)"
  by (simp add: bump_def AList.update_conv')

lemma fold_bump_value:
  assumes "\<forall>x \<in> set ys. 0 \<le> x" "0 \<le> y"
  shows "map_of (fold bump ys acc) (number_to_string y) =
     (if count_list ys y = 0 then map_of acc (number_to_string y)
      else Some ((case map_of acc (number_to_string y) of None \<Rightarrow> 0 | Some c \<Rightarrow> c) + count_list ys y))"
  using assms
proof (induction ys arbitrary: acc)
  case Nil
  then show ?case by simp
next
  case (Cons x xs)
  have inj: "number_to_string y = number_to_string x \<longleftrightarrow> x = y"
    using Cons.prems number_to_string_inj [of x y] by auto
  have "map_of (fold bump (x # xs) acc) (number_to_string y)
          = map_of (fold bump xs (bump x acc)) (number_to_string y)"
    by simp
  also have "\<dots> = (if count_list xs y = 0 then map_of (bump x acc) (number_to_string y)
      else Some ((case map_of (bump x acc) (number_to_string y) of None \<Rightarrow> 0 | Some c \<Rightarrow> c) + count_list xs y))"
    using Cons.prems by (intro Cons.IH) auto
  also have "\<dots> = (if count_list (x # xs) y = 0 then map_of acc (number_to_string y)
      else Some ((case map_of acc (number_to_string y) of None \<Rightarrow> 0 | Some c \<Rightarrow> c) + count_list (x # xs) y))"
    by (simp add: map_of_bump inj split: option.splits)
  finally show ?case .
qed

lemma object_entries_indices:
  assumes "\<forall>kv \<in> set obj. array_index (fst kv) \<noteq> None"
  shows "object_entries obj = sort_key (\<lambda>kv. index_or_zero (fst kv)) obj"
proof -
  have "filter (\<lambda>kv. array_index (fst kv) \<noteq> None) obj = obj"
    using assms by (simp add: filter_id_conv)
  moreover have "filter (\<lambda>kv. array_index (fst kv) = None) obj = []"
    using assms by (simp add: filter_empty_conv)
  ultimately show ?thesis by (simp add: object_entries_def)
qed

lemma index_number_to_string:
  "0 \<le> n \<Longrightarrow> n < 4294967295 \<Longrightarrow> index_or_zero (number_to_string n) = n"
  by (simp add: index_or_zero_def array_index_number_to_string)

lemma chart_entries:
  fixes movies
  defines "ys \<equiv> chart_years movies"
  shows "object_entries (count_years movies [])
           = map (\<lambda>y. (number_to_string y, count_list ys y)) (sorted_list_of_set (set ys))"
proof -
  let ?K = number_to_string
  let ?idx = "\<lambda>kv :: string \<times> nat. index_or_zero (fst kv)"
  define E0 where "E0 = count_years movies []"
  define E where "E = sort_key ?idx E0"
  have r: "1800 < y \<and> y < 2100" if "y \<in> set ys" for y
    using that unfolding ys_def by (rule chart_years_range)
  have E0: "E0 = fold bump ys []" by (simp add: E0_def ys_def count_years_fold)
  have keys: "fst ` set E0 = ?K ` set ys" by (simp add: E0 fold_bump_keys)
  have dist: "distinct (map fst E0)" by (simp add: E0 fold_bump_distinct)
  have nonneg: "\<forall>x \<in> set ys. 0 \<le> x" using r by force
  have val: "(?K y, count_list ys y) \<in> set E0" if "y \<in> set ys" for y
  proof -
    from that have "count_list ys y \<noteq> 0" by (simp add: count_list_0_iff)
    moreover have "0 \<le> y" using r [OF that] by simp
    ultimately have "map_of E0 (?K y) = Some (count_list ys y)"
      using nonneg by (simp add: E0 fold_bump_value)
    then show ?thesis by (rule map_of_SomeD)
  qed
  have entry: "\<exists>y \<in> set ys. kv = (?K y, count_list ys y)" if "kv \<in> set E0" for kv
  proof -
    from that keys obtain y where y: "y \<in> set ys" "fst kv = ?K y" by force
    from val [OF y(1)] have "(?K y, count_list ys y) \<in> set E0" .
    with dist that y(2) have "snd kv = count_list ys y"
      by (metis eq_key_imp_eq_value prod.collapse)
    with y show ?thesis by (metis prod.collapse)
  qed
  have idx: "?idx kv \<in> set ys \<and> kv = (?K (?idx kv), count_list ys (?idx kv))" if "kv \<in> set E0" for kv
  proof -
    from entry [OF that] obtain y where y: "y \<in> set ys" "kv = (?K y, count_list ys y)" by blast
    have "?idx kv = y" using r [OF y(1)] by (simp add: y(2) index_number_to_string)
    with y show ?thesis by simp
  qed
  have all_indices: "\<forall>kv \<in> set E0. array_index (fst kv) \<noteq> None"
  proof
    fix kv assume "kv \<in> set E0"
    from entry [OF this] obtain y where y: "y \<in> set ys" "kv = (?K y, count_list ys y)" by blast
    then show "array_index (fst kv) \<noteq> None"
      using r [OF y(1)] by (simp add: array_index_number_to_string)
  qed
  have oe: "object_entries E0 = E"
    unfolding E_def using all_indices by (rule object_entries_indices)
  have setE: "set E = set E0" by (simp add: E_def)
  have inj: "inj_on ?idx (set E0)"
  proof (rule inj_onI)
    fix a b assume "a \<in> set E0" "b \<in> set E0" "?idx a = ?idx b"
    then show "a = b" using idx [of a] idx [of b] by metis
  qed
  have dE0: "distinct E0" using dist by (rule distinct_map [THEN iffD1, THEN conjunct1])
  have "sorted (map ?idx E)" by (simp add: E_def)
  moreover have "distinct (map ?idx E)"
    using inj dE0 by (simp add: E_def distinct_map setE [unfolded E_def])
  moreover have "set (map ?idx E) = set ys"
  proof
    show "set (map ?idx E) \<subseteq> set ys" using idx by (auto simp: setE)
    show "set ys \<subseteq> set (map ?idx E)"
    proof
      fix y assume y: "y \<in> set ys"
      from val [OF y] have m: "(?K y, count_list ys y) \<in> set E" by (simp add: setE)
      have "?idx (?K y, count_list ys y) = y" using r [OF y] by (simp add: index_number_to_string)
      with m show "y \<in> set (map ?idx E)" by force
    qed
  qed
  ultimately have sl: "sorted_list_of_set (set ys) = map ?idx E"
    by (metis sorted_list_of_set.idem_if_sorted_distinct)
  have "map (\<lambda>kv. (?K (?idx kv), count_list ys (?idx kv))) E = E"
  proof (rule map_idI)
    fix kv assume "kv \<in> set E"
    then have "kv \<in> set E0" by (simp add: setE)
    from idx [OF this] show "(?K (?idx kv), count_list ys (?idx kv)) = kv" by simp
  qed
  then have "map (\<lambda>y. (?K y, count_list ys y)) (map ?idx E) = E"
    by (simp add: comp_def)
  with sl oe show ?thesis by (simp add: E0_def)
qed

lemma sum_count_sorted_list: "sum_list (map (count_list ys) (sorted_list_of_set (set ys))) = length ys"
proof -
  have "sum_list (map (count_list ys) (sorted_list_of_set (set ys))) = sum (count_list ys) (set ys)"
    by (simp add: sum_list_distinct_conv_sum_set)
  then show ?thesis by (simp add: sum_count_set)
qed

lemma index_chart_year:
  "y \<in> set (chart_years movies) \<Longrightarrow> index_or_zero (number_to_string y) = y"
  using chart_years_range [of y movies] by (simp add: index_number_to_string)

text \<open>
  Claim C2. For every sequence of movies, the chart has exactly one point for each
  distinct year that parses as an integer strictly between 1800 and 2100; the count of
  a point is the number of movies with that year; the points are in ascending order of
  the year. A movie whose year is no number, or out of that range, counts in no point
  (the counts add up to the number of movies with a year in range), and it stays in
  the set of qualifying movies, which does not look at the value of the year.
\<close>

theorem createChartData_one_point_per_year:
  "createChartData movies =
     map (\<lambda>y. \<lparr>year = number_to_string y, count_n = count_list (chart_years movies) y\<rparr>)
       (sorted_list_of_set (set (chart_years movies)))
   \<and> sum_list (map count_n (createChartData movies)) = length (chart_years movies)
   \<and> (\<forall>entry \<in> set data. is_movie entry \<longrightarrow> entry \<in> set (filterAndProcessMovies data))"
proof (intro conjI ballI impI)
  let ?ys = "chart_years movies"
  let ?pt = "\<lambda>y. \<lparr>year = number_to_string y, count_n = count_list ?ys y\<rparr>"
  let ?pts = "map ?pt (sorted_list_of_set (set ?ys))"
  have e: "map (\<lambda>kv. \<lparr>year = fst kv, count_n = snd kv\<rparr>) (object_entries (count_years movies [])) = ?pts"
    by (simp add: chart_entries comp_def)
  have p: "\<forall>x \<in> set ?pts. parseInt (year x) = Some (Num (index_or_zero (year x)))"
  proof
    fix x assume "x \<in> set ?pts"
    then obtain y where "y \<in> set ?ys" "x = ?pt y" by auto
    then show "parseInt (year x) = Some (Num (index_or_zero (year x)))"
      using chart_years_range [of y movies]
      by (simp add: parseInt_year index_number_to_string)
  qed
  have "map (\<lambda>x. index_or_zero (year x)) ?pts = map index_or_zero (map number_to_string (sorted_list_of_set (set ?ys)))"
    by (simp add: comp_def)
  also have "\<dots> = sorted_list_of_set (set ?ys)"
  proof -
    have "map (\<lambda>y. index_or_zero (number_to_string y)) (sorted_list_of_set (set ?ys))
            = sorted_list_of_set (set ?ys)"
      by (rule map_idI) (simp add: index_chart_year)
    then show ?thesis by (simp add: comp_def)
  qed
  finally have "sorted (map (\<lambda>x. index_or_zero (year x)) ?pts)"
    by simp
  with p have "js_sort_pure (\<lambda>a b. num_sub (parseInt (year a)) (parseInt (year b))) ?pts = ?pts"
    by (rule js_sort_pure_sorted)
  then show c: "createChartData movies = ?pts"
    by (simp add: createChartData_def e)
  show "sum_list (map count_n (createChartData movies)) = length ?ys"
    by (simp add: c comp_def sum_count_sorted_list)
next
  fix entry
  assume "entry \<in> set data" "is_movie entry"
  then show "entry \<in> set (filterAndProcessMovies data)"
    by (simp add: filterAndProcessMovies_def)
qed

text \<open>
  Movies with the years 1999, 1999, 2001 and \<open>abc\<close>, and one of the year 1750: two
  points, for 1999 with count 2 and for 2001 with count 1.
\<close>

theorem createChartData_one_point_per_year_witness:
  "createChartData (example_movies @ [movie_old])
     = [\<lparr>year = ''1999'', count_n = 2\<rparr>, \<lparr>year = ''2001'', count_n = 1\<rparr>]
   \<and> chart_years (example_movies @ [movie_old]) = [1999, 1999, 2001]
   \<and> filterAndProcessMovies (example_movies @ [movie_old]) = example_movies @ [movie_old]
   \<and> movie_old \<in> set (filterAndProcessMovies (example_movies @ [movie_old]))"
proof -
  let ?ms = "example_movies @ [movie_old]"
  have y: "chart_years ?ms = [1999, 1999, 2001]"
    by code_simp
  have s: "sorted_list_of_set (set [1999, 1999, 2001 :: int]) = [1999, 2001]"
    by code_simp
  have n: "number_to_string 1999 = ''1999''" "number_to_string 2001 = ''2001''"
    by code_simp+
  have f: "filterAndProcessMovies ?ms = ?ms"
    by code_simp
  have m: "is_movie movie_old"
    by code_simp
  from createChartData_one_point_per_year [of ?ms ?ms]
  have c: "createChartData ?ms =
     map (\<lambda>y. \<lparr>year = number_to_string y, count_n = count_list (chart_years ?ms) y\<rparr>)
       (sorted_list_of_set (set (chart_years ?ms)))"
    and b: "\<forall>entry \<in> set ?ms. is_movie entry \<longrightarrow> entry \<in> set (filterAndProcessMovies ?ms)"
    by blast+
  from c have "createChartData ?ms = [\<lparr>year = ''1999'', count_n = 2\<rparr>, \<lparr>year = ''2001'', count_n = 1\<rparr>]"
    by (simp add: y s n)
  moreover from b m have "movie_old \<in> set (filterAndProcessMovies ?ms)"
    by simp
  ultimately show ?thesis using y f by simp
qed

subsection \<open>The list of all movies\<close>

lemma keeps_movie_year: "keeps_movie hg hdir mn mx ds ls movie \<Longrightarrow> year_of movie \<noteq> None"
  by (auto simp: keeps_movie_def year_of_def split: option.splits)

lemma keeps_movie_genres:
  "keeps_movie True hdir mn mx ds ls movie \<Longrightarrow> selectedGenres ls \<noteq> [] \<Longrightarrow>
   set (selectedGenres ls) \<subseteq> set (movie_genres movie)"
  by (auto simp: keeps_movie_def list_all_iff split: option.splits if_splits)

lemma filtered_year: "movie \<in> set (filtered movies columns ls) \<Longrightarrow> year_of movie \<noteq> None"
  by (auto simp: filtered_def Let_def dest: keeps_movie_year)

lemma filtered_genres:
  assumes "movie \<in> set (filtered movies columns ls)" "''Genres'' \<in> set columns" "selectedGenres ls \<noteq> []"
  shows "set (selectedGenres ls) \<subseteq> set (movie_genres movie)"
proof -
  from assms(1,2) obtain hdir mn mx ds where "keeps_movie True hdir mn mx ds ls movie"
    by (auto simp: filtered_def Let_def)
  then show ?thesis using assms(3) by (rule keeps_movie_genres)
qed

text \<open>
  A click on an offered genre keeps the selected genres among the offered ones; and no
  genre is offered under the name \<open>War\<close>, which the table gives as \<open>Krig\<close>.
\<close>

lemma war_never_offered: "translate_genre x \<noteq> Str ''War''"
  by (auto simp: translate_genre_def table_lookup_def genreTranslations_def
      split: option.splits if_splits)

lemma handleGenreChange_offered:
  assumes "genre \<in> set offered" "set (selectedGenres ls) \<subseteq> set offered"
  shows "set (selectedGenres (handleGenreChange genre ls)) \<subseteq> set offered"
  using assms by (auto simp: handleGenreChange_def)

text \<open>
  Claim C9, as amended. When a \<open>Genres\<close> column exists and at least one genre is
  selected, a movie is in the list only if its genre list holds every selected genre:
  all of them, not one of them. The genre list is the \<open>Genres\<close> field split at each
  comma followed by a space, every entry trimmed and replaced by what the table of
  genre names gives for it when it gives something. So selecting Drama and War, by
  the names offered for them, keeps the movie whose genres are \<open>Drama, War\<close> and rejects
  those with \<open>Drama\<close> and with \<open>War, Comedy\<close>.
\<close>

theorem genre_filter_requires_every_selected_genre:
  assumes "''Genres'' \<in> set columns"
    and "selectedGenres ls \<noteq> []"
    and "filteredMovies localeCompare dateTime movies columns ls = Inr view"
    and "movie \<in> set view"
  shows "\<exists>g. obj_get movie ''Genres'' = Some g
           \<and> set (selectedGenres ls) \<subseteq> translate_genre ` trim ` set (split_comma_space g)"
proof -
  from assms(3) have "set view = set (filtered movies columns ls)"
    unfolding filteredMovies_def by (rule js_sort_set)
  with assms(4) have "movie \<in> set (filtered movies columns ls)" by simp
  then have s: "set (selectedGenres ls) \<subseteq> set (movie_genres movie)"
    using assms(1,2) by (rule filtered_genres)
  show ?thesis
  proof (cases "obj_get movie ''Genres''")
    case None
    with s assms(2) show ?thesis by (simp add: movie_genres_def)
  next
    case (Some g)
    with s show ?thesis by (simp add: movie_genres_def image_image)
  qed
qed

text \<open>
  Of the movies with the genres \<open>Drama\<close>, \<open>Drama, War\<close> and \<open>War, Comedy\<close>, the genres
  offered are \<open>Drama\<close>, \<open>Krig\<close> (for War) and \<open>Komedi\<close> (for Comedy). After the clicks on
  the names offered for Drama and for War, the list holds the second movie only.
\<close>

theorem genre_filter_requires_every_selected_genre_witness:
  "genreSet True genre_movies = [Str ''Drama'', Str ''Krig'', Str ''Komedi'']
   \<and> translate_genre ''Drama'' = Str ''Drama''
   \<and> translate_genre ''War'' = Str ''Krig''
   \<and> selectedGenres drama_and_war = [Str ''Drama'', Str ''Krig'']
   \<and> filteredMovies no_locale no_date genre_movies example_columns drama_and_war
       = Inr [movie_drama_war]
   \<and> (\<exists>g. obj_get movie_drama_war ''Genres'' = Some g
           \<and> set (selectedGenres drama_and_war)
               \<subseteq> translate_genre ` trim ` set (split_comma_space g))"
proof -
  have o: "genreSet True genre_movies = [Str ''Drama'', Str ''Krig'', Str ''Komedi'']"
    "translate_genre ''Drama'' = Str ''Drama''"
    "translate_genre ''War'' = Str ''Krig''"
    "selectedGenres drama_and_war = [Str ''Drama'', Str ''Krig'']"
    by code_simp+
  have a: "''Genres'' \<in> set example_columns"
    by (simp add: example_columns_def)
  have b: "selectedGenres drama_and_war \<noteq> []"
    by (simp add: o)
  have c: "filteredMovies no_locale no_date genre_movies example_columns drama_and_war
             = Inr [movie_drama_war]"
    by code_simp
  have d: "movie_drama_war \<in> set [movie_drama_war]"
    by simp
  from genre_filter_requires_every_selected_genre [OF a b c d] c o show ?thesis
    by simp
qed

text \<open>
  Claim C9 as stated fails for a \<open>Genres\<close> field whose comma has no space after it.
  The field \<open>Drama,War\<close> is one entry, offered as the one genre \<open>Drama,War\<close>; after a
  click on it the movie is in the list, and its comma-separated genre list, \<open>Drama\<close>
  and \<open>Krig\<close>, does not hold the selected genre.
\<close>

theorem genre_filter_comma_separated_counterexample:
  "obj_get movie_no_space ''Genres'' = Some ''Drama,War''
   \<and> genreSet True [movie_no_space] = [Str ''Drama,War'']
   \<and> selectedGenres (handleGenreChange (Str ''Drama,War'') default_list) = [Str ''Drama,War'']
   \<and> ''Genres'' \<in> set example_columns
   \<and> filteredMovies no_locale no_date [movie_no_space] example_columns
       (handleGenreChange (Str ''Drama,War'') default_list) = Inr [movie_no_space]
   \<and> comma_separated_genres movie_no_space = [Str ''Drama'', Str ''Krig'']
   \<and> Str ''Drama,War'' \<notin> set (comma_separated_genres movie_no_space)"
  by code_simp

text \<open>
  Claim C10. Whatever the filters, the sort and the year range, the default state
  included, no movie whose \<open>Year\<close> does not parse as an integer passes the filter of
  the list, and none is in the list shown; so a qualifying movie with a non-empty year
  that is no number, which is in the set of qualifying movies, is never listed.
\<close>

theorem main_list_excludes_unparsed_years:
  "(\<forall>movie \<in> set (filtered movies columns ls). year_of movie \<noteq> None)
   \<and> (\<forall>view. filteredMovies localeCompare dateTime movies columns ls = Inr view
         \<longrightarrow> (\<forall>movie \<in> set view. year_of movie \<noteq> None))"
proof (intro conjI allI impI ballI)
  fix movie
  assume "movie \<in> set (filtered movies columns ls)"
  then show "year_of movie \<noteq> None" by (rule filtered_year)
next
  fix view movie
  assume "filteredMovies localeCompare dateTime movies columns ls = Inr view"
  then have "set view = set (filtered movies columns ls)"
    unfolding filteredMovies_def by (rule js_sort_set)
  moreover assume "movie \<in> set view"
  ultimately show "year_of movie \<noteq> None" by (simp add: filtered_year)
qed

theorem main_list_excludes_unparsed_years_witness:
  "filteredMovies no_locale no_date (filterAndProcessMovies example_movies) example_columns default_list
     = Inr [movie_drama_war, movie_war_comedy, movie_drama]
   \<and> movie_bad_year \<in> set (filterAndProcessMovies example_movies)
   \<and> obj_get movie_bad_year ''Year'' = Some ''abc''
   \<and> year_of movie_bad_year = None
   \<and> year_of movie_drama \<noteq> None"
proof -
  have v: "filteredMovies no_locale no_date (filterAndProcessMovies example_movies) example_columns default_list
     = Inr [movie_drama_war, movie_war_comedy, movie_drama]"
    by code_simp
  have b: "movie_bad_year \<in> set (filterAndProcessMovies example_movies)"
    by code_simp
  have y: "obj_get movie_bad_year ''Year'' = Some ''abc''" "year_of movie_bad_year = None"
    by code_simp+
  from main_list_excludes_unparsed_years
    [of "filterAndProcessMovies example_movies" example_columns default_list no_locale no_date] v
  have "\<forall>movie \<in> set [movie_drama_war, movie_war_comedy, movie_drama]. year_of movie \<noteq> None"
    by blast
  then have "year_of movie_drama \<noteq> None" by simp
  with v b y show ?thesis by simp
qed

end
